theory Spec2Isabelle
  imports Main "HOL-Library.Word" "HOL-Library.AList"
begin

section \<open>Go values shared by the packages\<close>

text \<open>
  Bytes are 8-bit words, addresses (\<^verbatim>\<open>disasm.Ptr\<close>, \<^verbatim>\<open>uintptr\<close>, \<^verbatim>\<open>types.Addr\<close>) are
  64-bit words whose subtraction wraps around. An \<^verbatim>\<open>error\<close> value is either one produced by
  a library outside the repository, or one of the two wrappers the sources build:
  \<^verbatim>\<open>errors.Wrapf(err, format, args...)\<close> and \<^verbatim>\<open>fmt.Errorf(format, x)\<close> around a recovered
  panic value. Format strings are kept unformatted, next to their integer arguments.
\<close>

type_synonym byte = "8 word"
type_synonym Ptr = "64 word"

datatype error =
    External string
  | Wrapf error string "int list"
  | Errorf string string

text \<open>A Go call either returns or panics; a panic carries its (non-nil) value.\<close>

datatype 'a outcome = Panics string | Returns 'a

text \<open>
  A byte slice is the bytes below its length (\<open>elems\<close>) together with the bytes of the
  backing array between its length and its capacity (\<open>spare\<close>): Go lets \<^verbatim>\<open>s[0:n]\<close> reach
  up to the capacity, and panics beyond it; \<^verbatim>\<open>s[n:]\<close> panics when \<open>n\<close> exceeds the length.
\<close>

record byteslice =
  elems :: "byte list"
  spare :: "byte list"

definition slice_len :: "byteslice \<Rightarrow> nat" where
  "slice_len s = length (elems s)"

definition slice_cap :: "byteslice \<Rightarrow> nat" where
  "slice_cap s = length (elems s) + length (spare s)"

definition slice_upto :: "byteslice \<Rightarrow> int \<Rightarrow> byteslice outcome" where
  "slice_upto s n =
     (if n < 0 \<or> int (slice_cap s) < n then Panics ''slice bounds out of range''
      else Returns \<lparr>elems = take (nat n) (elems s @ spare s),
                    spare = drop (nat n) (elems s @ spare s)\<rparr>)"

definition slice_from :: "byteslice \<Rightarrow> nat \<Rightarrow> byteslice outcome" where
  "slice_from s n =
     (if slice_len s < n then Panics ''slice bounds out of range''
      else Returns \<lparr>elems = drop n (elems s), spare = spare s\<rparr>)"

section \<open>lib/architectures/amd64/x86Decoder.go\<close>

text \<open>
  The disassembler \<^verbatim>\<open>golang.org/x/arch/x86/x86asm\<close> is not part of the repository. It is a
  parameter: \<open>Decode\<close> maps a slice and a mode to a decoded \<^verbatim>\<open>Inst\<close> and an optional error,
  or panics; \<open>InstLen\<close> reads the field \<^verbatim>\<open>Inst.Len\<close> (a Go \<^verbatim>\<open>int\<close>); \<open>InstString\<close> is the
  method \<^verbatim>\<open>Inst.String()\<close>, which may panic as well. The package keeps no state between
  calls, so all three are functions of their arguments.
\<close>

record 'inst x86asm =
  Decode :: "byteslice \<Rightarrow> nat \<Rightarrow> ('inst \<times> error option) outcome"
  InstLen :: "'inst \<Rightarrow> int"
  InstString :: "'inst \<Rightarrow> string outcome"

record Instruction =
  Octets :: byteslice
  DisAsm :: string

text \<open>
  The body of \<^verbatim>\<open>InstructionDecoder\<close> without its deferred function. The named results
  \<^verbatim>\<open>instruction\<close> and \<^verbatim>\<open>err\<close> are the two components of the returned pair; \<open>None\<close> is
  \<^verbatim>\<open>nil\<close>. The composite literal slices first and calls \<^verbatim>\<open>inst.String()\<close> second.
\<close>

definition InstructionDecoder_body ::
  "'inst x86asm \<Rightarrow> byteslice \<Rightarrow> (Instruction option \<times> error option) outcome" where
  "InstructionDecoder_body x opcodes =
     (case Decode x opcodes 64 of
        Panics v \<Rightarrow> Panics v
      | Returns (inst, err) \<Rightarrow>
          (case err of
             Some e \<Rightarrow> Returns (None, Some (Wrapf e ''Unable to decode instruction.'' []))
           | None \<Rightarrow>
               (case slice_upto opcodes (InstLen x inst) of
                  Panics v \<Rightarrow> Panics v
                | Returns octets \<Rightarrow>
                    (case InstString x inst of
                       Panics v \<Rightarrow> Panics v
                     | Returns s \<Rightarrow> Returns (Some \<lparr>Octets = octets, DisAsm = s\<rparr>, None)))))"

text \<open>
  The deferred function recovers a panic of the body. Every panic of the body happens
  before \<^verbatim>\<open>instruction\<close> is assigned and while \<^verbatim>\<open>err\<close> is still \<^verbatim>\<open>nil\<close>, so the pair
  returned after recovery is \<^verbatim>\<open>(nil, fmt.Errorf(..., x))\<close>.
\<close>

definition InstructionDecoder ::
  "'inst x86asm \<Rightarrow> byteslice \<Rightarrow> Instruction option \<times> error option" where
  "InstructionDecoder x opcodes =
     (case InstructionDecoder_body x opcodes of
        Panics v \<Rightarrow>
          (None, Some (Errorf ''Unable to decode instruction due to disassembler panic: %v'' v))
      | Returns r \<Rightarrow> r)"

text \<open>
  The loop of \<^verbatim>\<open>GadgetDecoder\<close>. \<open>gadget\<close> is the slice accumulated so far. The loop has no
  bound of its own: a decoder that reports success with length 0 on a non-empty slice
  keeps it running, which is the value \<open>None\<close>. \<^verbatim>\<open>return nil, err\<close> is the pair
  \<open>([], Some err)\<close>. Dereferencing a nil \<^verbatim>\<open>instr\<close> would panic, and nothing recovers it.
\<close>

partial_function (option) GadgetDecoder_loop ::
  "'inst x86asm \<Rightarrow> byteslice \<Rightarrow> Instruction list \<Rightarrow>
     (Instruction list \<times> error option) outcome option" where
  "GadgetDecoder_loop x opcodes gadget =
     (if 0 < slice_len opcodes then
        (case InstructionDecoder x opcodes of
           (instr, Some err) \<Rightarrow>
             Some (Returns ([], Some (Wrapf err ''Error decoding underlying instruction.'' [])))
         | (None, None) \<Rightarrow> Some (Panics ''nil pointer dereference'')
         | (Some instr, None) \<Rightarrow>
             (if slice_len opcodes \<le> slice_len (Octets instr)
              then Some (Returns (gadget @ [instr], None))
              else (case slice_from opcodes (slice_len (Octets instr)) of
                      Panics v \<Rightarrow> Some (Panics v)
                    | Returns rest \<Rightarrow> GadgetDecoder_loop x rest (gadget @ [instr]))))
      else Some (Returns (gadget, None)))"

definition GadgetDecoder ::
  "'inst x86asm \<Rightarrow> byteslice \<Rightarrow> (Instruction list \<times> error option) outcome option" where
  "GadgetDecoder x opcodes = GadgetDecoder_loop x opcodes []"

text \<open>
  What a run of the loop leaves behind, read off the slice. \<open>decoded_chain x s g\<close>: the
  instructions of \<open>g\<close> are the results of \<^verbatim>\<open>InstructionDecoder\<close> at consecutive offsets of
  \<open>s\<close>, each one starting where the previous one's octets end, and the last one reaches the
  end of \<open>s\<close>. \<open>aborted_chain x s pre e\<close>: the instructions of \<open>pre\<close> decode consecutively,
  none reaches the end of \<open>s\<close>, and the decoder fails with \<open>e\<close> right after them.
\<close>

fun decoded_chain :: "'inst x86asm \<Rightarrow> byteslice \<Rightarrow> Instruction list \<Rightarrow> bool" where
  "decoded_chain x s [] = (slice_len s = 0)"
| "decoded_chain x s (i # g) =
     (0 < slice_len s \<and> InstructionDecoder x s = (Some i, None) \<and>
      (if slice_len s \<le> slice_len (Octets i) then g = []
       else decoded_chain x \<lparr>elems = drop (slice_len (Octets i)) (elems s), spare = spare s\<rparr> g))"

fun aborted_chain :: "'inst x86asm \<Rightarrow> byteslice \<Rightarrow> Instruction list \<Rightarrow> error \<Rightarrow> bool" where
  "aborted_chain x s [] e = (0 < slice_len s \<and> snd (InstructionDecoder x s) = Some e)"
| "aborted_chain x s (i # g) e =
     (0 < slice_len s \<and> InstructionDecoder x s = (Some i, None) \<and>
      slice_len (Octets i) < slice_len s \<and>
      aborted_chain x \<lparr>elems = drop (slice_len (Octets i)) (elems s), spare = spare s\<rparr> g e)"

text \<open>The bytes of a gadget: the octets of its instructions, concatenated in order.\<close>

definition gadget_octets :: "Instruction list \<Rightarrow> byte list" where
  "gadget_octets g = concat (map (\<lambda>i. elems (Octets i)) g)"

text \<open>
  A small disassembler to run the decoders on: \<^verbatim>\<open>C3\<close> is \<^verbatim>\<open>RET\<close>, \<^verbatim>\<open>90\<close> is \<^verbatim>\<open>NOP\<close>,
  \<^verbatim>\<open>58\<close> is \<^verbatim>\<open>POP RAX\<close>, each one byte long; \<^verbatim>\<open>CC\<close> makes it panic; an empty slice is
  truncated and any other byte unrecognised.
\<close>

definition fixture_x86 :: "(int \<times> string) x86asm" where
  "fixture_x86 =
     \<lparr>Decode = (\<lambda>s mode.
        (case elems s of
           [] \<Rightarrow> Returns ((0, []), Some (External ''truncated instruction''))
         | b # _ \<Rightarrow>
             if b = 0xC3 then Returns ((1, ''RET''), None)
             else if b = 0x90 then Returns ((1, ''NOP''), None)
             else if b = 0x58 then Returns ((1, ''POP RAX''), None)
             else if b = 0xCC then Panics ''index out of range''
             else Returns ((0, []), Some (External ''unrecognized instruction'')))),
      InstLen = fst,
      InstString = (\<lambda>i. Returns (snd i))\<rparr>"

text \<open>
  The gadget decoder as section 4.2 of the specification words it, for comparison with
  the source: the loop also stops once the instruction just appended is
  control-flow-terminating. \<open>terminating\<close> is that test.
\<close>

partial_function (option) GadgetDecoder_spec_loop ::
  "(Instruction \<Rightarrow> bool) \<Rightarrow> 'inst x86asm \<Rightarrow> byteslice \<Rightarrow> Instruction list \<Rightarrow>
     (Instruction list \<times> error option) outcome option" where
  "GadgetDecoder_spec_loop terminating x opcodes gadget =
     (if 0 < slice_len opcodes then
        (case InstructionDecoder x opcodes of
           (instr, Some err) \<Rightarrow>
             Some (Returns ([], Some (Wrapf err ''Error decoding underlying instruction.'' [])))
         | (None, None) \<Rightarrow> Some (Panics ''nil pointer dereference'')
         | (Some instr, None) \<Rightarrow>
             (if slice_len opcodes \<le> slice_len (Octets instr) \<or> terminating instr
              then Some (Returns (gadget @ [instr], None))
              else (case slice_from opcodes (slice_len (Octets instr)) of
                      Panics v \<Rightarrow> Some (Panics v)
                    | Returns rest \<Rightarrow>
                        GadgetDecoder_spec_loop terminating x rest (gadget @ [instr]))))
      else Some (Returns (gadget, None)))"


section \<open>lib/Fingerprint.go\<close>

text \<open>
  \<^verbatim>\<open>memaccess.MemoryRegion\<close> belongs to a library outside the repository; the sources read
  its fields \<^verbatim>\<open>Address\<close>, \<^verbatim>\<open>Size\<close> and \<^verbatim>\<open>Kind\<close>; \<open>Access\<close> stands for its permission
  bits. A \<^verbatim>\<open>Sig\<close> is a string.
\<close>

type_synonym Sig = string

record MemoryRegion =
  Address :: Ptr
  Size :: "64 word"
  Access :: nat
  Kind :: string

text \<open>
  A Go map that the code ranges over is an association list: the list's order stands for
  the order in which \<^verbatim>\<open>range\<close> happens to enumerate the map, which Go leaves open, so a
  statement about every list is a statement about every order. The keys of a map are
  distinct. The values of the maps below are pointers or slices, and either can be
  \<^verbatim>\<open>nil\<close> (\<open>None\<close>); \<^verbatim>\<open>m[k]\<close> on a missing key is \<^verbatim>\<open>nil\<close> as well, so \<^verbatim>\<open>m[k] == nil\<close> does
  not tell a missing key from a nil value. A nil slice has length 0, and \<^verbatim>\<open>append\<close> to it
  gives a non-nil slice. \<^verbatim>\<open>m[k] = v\<close> is \<open>AList.update k v m\<close>.
\<close>

definition go_lookup :: "('k \<times> 'v option) list \<Rightarrow> 'k \<Rightarrow> 'v option" where
  "go_lookup m k = (case map_of m k of None \<Rightarrow> None | Some v \<Rightarrow> v)"

definition slice_elems :: "'a list option \<Rightarrow> 'a list" where
  "slice_elems s = (case s of None \<Rightarrow> [] | Some xs \<Rightarrow> xs)"

record FingerprintRegion =
  Region :: MemoryRegion
  Gadgets :: "(Sig \<times> Ptr list option) list"

text \<open>
  The declarations of the two comparison structs are not among the sources; their fields
  are the ones \<^verbatim>\<open>compareFingerprints\<close> and \<^verbatim>\<open>compareFingerprintRegions\<close> assign. The field
  \<^verbatim>\<open>Region\<close> of \<^verbatim>\<open>FingerprintRegionComparison\<close> is \<open>Region_cmp\<close> here.
\<close>

record FingerprintRegionComparison =
  Region_cmp :: MemoryRegion
  Displacement :: "64 word"
  GadgetDisplacements :: "(Ptr \<times> 64 word list) list"
  AddedGadgets :: "(Sig \<times> Ptr list option) list"

record FingerprintComparison =
  RemovedRegions :: "MemoryRegion list"
  SharedRegionComparisons :: "FingerprintRegionComparison list"
  AddedRegions :: "MemoryRegion list"

text \<open>
  The loop over \<^verbatim>\<open>i\<close> in \<^verbatim>\<open>compareFingerprintRegions\<close>: for each old address in turn, the
  vector of offsets \<^verbatim>\<open>newAddresses[j] - oldAddress\<close> (64-bit, wrapping) is stored under the
  old address, replacing what was stored under it before.
\<close>

definition record_displacements ::
  "Ptr list \<Rightarrow> Ptr list \<Rightarrow> (Ptr \<times> 64 word list) list \<Rightarrow> (Ptr \<times> 64 word list) list" where
  "record_displacements addresses newAddresses gd =
     fold (\<lambda>oldAddress. AList.update oldAddress (map (\<lambda>b. b - oldAddress) newAddresses))
       addresses gd"

definition compareFingerprintRegions ::
  "FingerprintRegion \<Rightarrow> FingerprintRegion \<Rightarrow> FingerprintRegionComparison" where
  "compareFingerprintRegions old new =
     \<lparr>Region_cmp = Region old,
      Displacement = Address (Region new) - Address (Region old),
      GadgetDisplacements =
        fold (\<lambda>(sig, addresses).
                record_displacements (slice_elems addresses)
                  (slice_elems (go_lookup (Gadgets new) sig)))
          (Gadgets old) [],
      AddedGadgets =
        fold (\<lambda>(sig, addresses) added.
                if go_lookup (Gadgets old) sig = None then AList.update sig addresses added
                else added)
          (Gadgets new) []\<rparr>"

text \<open>
  The first loop of \<^verbatim>\<open>compareFingerprints\<close>, over the entries of \<open>old\<close> still to visit.
  \<^verbatim>\<open>mapping.Region\<close>, \<^verbatim>\<open>*old[regionName]\<close> and \<^verbatim>\<open>*new[regionName]\<close> dereference pointers
  and panic on \<^verbatim>\<open>nil\<close>.
\<close>

fun removed_and_shared ::
  "(string \<times> FingerprintRegion option) list \<Rightarrow> (string \<times> FingerprintRegion option) list \<Rightarrow>
   (string \<times> FingerprintRegion option) list \<Rightarrow> FingerprintComparison \<Rightarrow>
   FingerprintComparison outcome" where
  "removed_and_shared old new [] ret = Returns ret"
| "removed_and_shared old new ((regionName, mapping) # rest) ret =
     (case go_lookup new regionName of
        None \<Rightarrow>
          (case mapping of
             None \<Rightarrow> Panics ''nil pointer dereference''
           | Some m \<Rightarrow>
               removed_and_shared old new rest
                 (ret\<lparr>RemovedRegions := RemovedRegions ret @ [Region m]\<rparr>))
      | Some newRegion \<Rightarrow>
          (case go_lookup old regionName of
             None \<Rightarrow> Panics ''nil pointer dereference''
           | Some oldRegion \<Rightarrow>
               removed_and_shared old new rest
                 (ret\<lparr>SharedRegionComparisons :=
                        SharedRegionComparisons ret @ [compareFingerprintRegions oldRegion newRegion]\<rparr>)))"

text \<open>The second loop, over the entries of \<open>new\<close>.\<close>

fun added_regions ::
  "(string \<times> FingerprintRegion option) list \<Rightarrow>
   (string \<times> FingerprintRegion option) list \<Rightarrow> FingerprintComparison \<Rightarrow>
   FingerprintComparison outcome" where
  "added_regions old [] ret = Returns ret"
| "added_regions old ((regionName, mapping) # rest) ret =
     (if go_lookup old regionName = None then
        (case mapping of
           None \<Rightarrow> Panics ''nil pointer dereference''
         | Some m \<Rightarrow> added_regions old rest (ret\<lparr>AddedRegions := AddedRegions ret @ [Region m]\<rparr>))
      else added_regions old rest ret)"

definition compareFingerprints ::
  "(string \<times> FingerprintRegion option) list \<Rightarrow> (string \<times> FingerprintRegion option) list \<Rightarrow>
   FingerprintComparison outcome" where
  "compareFingerprints old new =
     (case removed_and_shared old new old
             \<lparr>RemovedRegions = [], SharedRegionComparisons = [], AddedRegions = []\<rparr> of
        Panics v \<Rightarrow> Panics v
      | Returns ret \<Rightarrow> added_regions old new ret)"

text \<open>
  \<^verbatim>\<open>OperateOnGadgets\<close> is not among the sources. It is a parameter that yields the calls it
  makes to the two functions \<^verbatim>\<open>Fingerprint\<close> hands it, in order, and the errors it returns:
  \<open>RegionFound\<close> is a call of the first function and \<open>GadgetFound\<close> a call of the second.
  Of a gadget the second function reads \<^verbatim>\<open>Signature\<close> and \<^verbatim>\<open>Address\<close> (\<open>GadgetAddress\<close> here).
  The state of the two closures is the map \<^verbatim>\<open>fingerprint\<close> and the variable \<^verbatim>\<open>section\<close>.
\<close>

record Gadget =
  GadgetAddress :: Ptr
  Signature :: Sig

datatype callback = RegionFound MemoryRegion | GadgetFound Gadget

type_synonym builder = "(string \<times> FingerprintRegion option) list \<times> MemoryRegion"

text \<open>
  The second closure. When \<^verbatim>\<open>fingerprint[section.Kind]\<close> is nil, a region with \<^verbatim>\<open>Region\<close>
  the current section and an empty \<^verbatim>\<open>Gadgets\<close> map is stored first; then the gadget's
  address is appended to the entry of its signature.
\<close>

definition on_gadget :: "Gadget \<Rightarrow> builder \<Rightarrow> builder" where
  "on_gadget gadget st =
     (let fingerprint = fst st; section = snd st;
          fr = (case go_lookup fingerprint (Kind section) of
                  None \<Rightarrow> \<lparr>Region = section, Gadgets = []\<rparr>
                | Some r \<Rightarrow> r)
      in (AList.update (Kind section)
            (Some (fr\<lparr>Gadgets :=
               AList.update (Signature gadget)
                 (Some (slice_elems (go_lookup (Gadgets fr) (Signature gadget)) @
                        [GadgetAddress gadget]))
                 (Gadgets fr)\<rparr>))
            fingerprint,
          section))"

fun on_callback :: "callback \<Rightarrow> builder \<Rightarrow> builder" where
  "on_callback (RegionFound region) st = (fst st, region)"
| "on_callback (GadgetFound gadget) st = on_gadget gadget st"

text \<open>The zero value of \<^verbatim>\<open>memaccess.MemoryRegion\<close>.\<close>

definition zero_region :: MemoryRegion where
  "zero_region = \<lparr>Address = 0, Size = 0, Access = 0, Kind = []\<rparr>"

text \<open>
  \<^verbatim>\<open>section\<close> starts as the zero \<^verbatim>\<open>MemoryRegion\<close>. The map is returned together with the
  errors of \<^verbatim>\<open>OperateOnGadgets\<close>, whatever they are.
\<close>

definition Fingerprint ::
  "('spec \<Rightarrow> callback list \<times> error option \<times> error list) \<Rightarrow> 'spec \<Rightarrow>
   (string \<times> FingerprintRegion option) list \<times> error option \<times> error list" where
  "Fingerprint OperateOnGadgets spec =
     (case OperateOnGadgets spec of
        (calls, harderror, softerrors) \<Rightarrow>
          (fst (fold on_callback calls
                  ([], zero_region)),
           harderror, softerrors))"


subsection \<open>Reading a comparison and a fingerprint\<close>

text \<open>
  \<^verbatim>\<open>ret.GadgetDisplacements[a]\<close>, read the way Go reads a map: the vector stored under \<open>a\<close>,
  or the empty (nil) vector when nothing is stored under it.
\<close>

definition displacement_vector :: "FingerprintRegionComparison \<Rightarrow> Ptr \<Rightarrow> 64 word list" where
  "displacement_vector c a =
     (case map_of (GadgetDisplacements c) a of None \<Rightarrow> [] | Some v \<Rightarrow> v)"

text \<open>A region's gadget map with the entry of one signature left out.\<close>

definition without_sig :: "Sig \<Rightarrow> FingerprintRegion \<Rightarrow> FingerprintRegion" where
  "without_sig S r = r\<lparr>Gadgets := filter (\<lambda>(S', As). S' \<noteq> S) (Gadgets r)\<rparr>"

text \<open>
  A fingerprint as the comparator expects it: the keys of the map are distinct, no region
  pointer is nil, and the keys of every region's gadget map are distinct.
\<close>

definition wellformed :: "(string \<times> FingerprintRegion option) list \<Rightarrow> bool" where
  "wellformed f =
     (distinct (map fst f) \<and>
      list_all (\<lambda>(k, p). case p of None \<Rightarrow> False | Some r \<Rightarrow> distinct (map fst (Gadgets r))) f)"

text \<open>
  What \<^verbatim>\<open>OperateOnGadgets\<close> emitted, as the pairs of section 4.5: every gadget with the region
  that was current when it was found. \<open>first_region\<close> is the region of the first pair of a
  kind, \<open>addresses_of\<close> the addresses of the pairs of a kind and a signature, in order.
\<close>

fun emitted :: "MemoryRegion \<Rightarrow> callback list \<Rightarrow> (MemoryRegion \<times> Gadget) list" where
  "emitted section [] = []"
| "emitted section (RegionFound region # calls) = emitted region calls"
| "emitted section (GadgetFound gadget # calls) = (section, gadget) # emitted section calls"

definition first_region :: "(MemoryRegion \<times> Gadget) list \<Rightarrow> string \<Rightarrow> MemoryRegion option" where
  "first_region pairs kind =
     (case filter (\<lambda>(region, gadget). Kind region = kind) pairs of
        [] \<Rightarrow> None
      | (region, gadget) # _ \<Rightarrow> Some region)"

definition addresses_of :: "(MemoryRegion \<times> Gadget) list \<Rightarrow> string \<Rightarrow> Sig \<Rightarrow> Ptr list" where
  "addresses_of pairs kind sig =
     map (\<lambda>(region, gadget). GadgetAddress gadget)
       (filter (\<lambda>(region, gadget). Kind region = kind \<and> Signature gadget = sig) pairs)"

text \<open>
  The reads \<^verbatim>\<open>fingerprint[kind].Region\<close> and \<^verbatim>\<open>fingerprint[kind].Gadgets[sig]\<close> of a finished
  fingerprint; a missing kind has no region and no addresses.
\<close>

definition region_of :: "(string \<times> FingerprintRegion option) list \<Rightarrow> string \<Rightarrow> MemoryRegion option" where
  "region_of fingerprint kind = map_option Region (go_lookup fingerprint kind)"

definition addresses_in ::
  "(string \<times> FingerprintRegion option) list \<Rightarrow> string \<Rightarrow> Sig \<Rightarrow> Ptr list" where
  "addresses_in fingerprint kind sig =
     (case go_lookup fingerprint kind of
        None \<Rightarrow> []
      | Some r \<Rightarrow> slice_elems (go_lookup (Gadgets r) sig))"

text \<open>A region to build examples with.\<close>

definition text_region :: MemoryRegion where
  "text_region = \<lparr>Address = 0x1000, Size = 0x100, Access = 5, Kind = ''.text''\<rparr>"



section \<open>DisassembleFile\<close>

text \<open>
  \<^verbatim>\<open>openBinary\<close>, the methods \<^verbatim>\<open>nextSectionData\<close> and \<^verbatim>\<open>close\<close> of the value it returns, and
  \<^verbatim>\<open>Disasm\<close> are not among the sources; they are parameters. The binary is a state \<open>'b\<close>
  that \<^verbatim>\<open>nextSectionData\<close> and \<^verbatim>\<open>close\<close> change; \<open>'i\<close> is \<^verbatim>\<open>types.InstructionInstance\<close>.
\<close>

record ('b, 'i) binaries =
  openBinary :: "string \<Rightarrow> 'b \<times> error option"
  nextSectionData :: "'b \<Rightarrow> (bool \<times> Ptr \<times> byte list \<times> error option) \<times> 'b"
  closeBinary :: "'b \<Rightarrow> 'b"
  Disasm :: "byte list \<Rightarrow> Ptr \<Rightarrow> Ptr \<Rightarrow> Ptr \<Rightarrow> 'i list \<times> error list"

text \<open>
  The \<^verbatim>\<open>for sectionExists\<close> loop. \<open>current\<close> holds the four values the latest call of
  \<^verbatim>\<open>nextSectionData\<close> returned. Nothing bounds the number of sections, so a run that never
  ends is \<open>None\<close>. \<^verbatim>\<open>return nil, err, nil\<close> is \<open>([], Some err, [])\<close>.
\<close>

partial_function (option) DisassembleFile_loop ::
  "('b, 'i) binaries \<Rightarrow> Ptr \<Rightarrow> Ptr \<Rightarrow> bool \<times> Ptr \<times> byte list \<times> error option \<Rightarrow> 'b \<Rightarrow>
   'i list \<Rightarrow> error list \<Rightarrow> (('i list \<times> error option \<times> error list) \<times> 'b) option" where
  "DisassembleFile_loop api start end_addr current b allInstructions softerrs =
     (case current of
        (sectionExists, addr, progData, err) \<Rightarrow>
          if sectionExists then
            (case err of
               Some e \<Rightarrow> Some (([], Some e, []), b)
             | None \<Rightarrow>
                 (case Disasm api progData addr start end_addr of
                    (instructions, errors) \<Rightarrow>
                      (case nextSectionData api b of
                         (next_section, b') \<Rightarrow>
                           DisassembleFile_loop api start end_addr next_section b'
                             (allInstructions @ instructions) (softerrs @ errors))))
          else Some ((allInstructions, None, softerrs), b))"

text \<open>
  The deferred \<^verbatim>\<open>b.close()\<close> runs on every return after the binary was opened; the result
  carries the binary as it is left (\<open>None\<close> when it was never opened).
\<close>

definition DisassembleFile ::
  "('b, 'i) binaries \<Rightarrow> string \<Rightarrow> Ptr \<Rightarrow> Ptr \<Rightarrow>
   (('i list \<times> error option \<times> error list) \<times> 'b option) option" where
  "DisassembleFile api path start end_addr =
     (case openBinary api path of
        (b, Some err) \<Rightarrow> Some (([], Some err, []), None)
      | (b, None) \<Rightarrow>
          (case nextSectionData api b of
             (first_section, b1) \<Rightarrow>
               (case DisassembleFile_loop api start end_addr first_section b1 [] [] of
                  None \<Rightarrow> None
                | Some (result, b2) \<Rightarrow> Some (result, Some (closeBinary api b2)))))"

text \<open>
  What a binary yields, call by call: \<open>sections_then api b secs final b'\<close> says that,
  starting from \<open>b\<close>, the calls of \<^verbatim>\<open>nextSectionData\<close> report the sections \<open>secs\<close> (address
  and bytes), each as existing and with a nil error, and that the call after them returns
  the four values \<open>final\<close> and leaves the binary \<open>b'\<close>.
\<close>

fun sections_then ::
  "('b, 'i) binaries \<Rightarrow> 'b \<Rightarrow> (Ptr \<times> byte list) list \<Rightarrow>
   bool \<times> Ptr \<times> byte list \<times> error option \<Rightarrow> 'b \<Rightarrow> bool" where
  "sections_then api b [] final b' = (nextSectionData api b = (final, b'))"
| "sections_then api b ((addr, progData) # rest) final b' =
     (case nextSectionData api b of
        (current, b1) \<Rightarrow>
          current = (True, addr, progData, None) \<and> sections_then api b1 rest final b')"

text \<open>
  A binary with one section holding \<^verbatim>\<open>C3\<close>; the call of \<^verbatim>\<open>nextSectionData\<close> after it
  reports no section together with an error.
\<close>

definition fixture_binary :: "(nat, string) binaries" where
  "fixture_binary =
     \<lparr>openBinary = (\<lambda>path. (0, None)),
      nextSectionData = (\<lambda>n.
        if n = 0 then ((True, 0x400000, [0xC3], None), 1)
        else ((False, 0, [], Some (External ''section header unreadable'')), Suc n)),
      closeBinary = (\<lambda>n. n),
      Disasm = (\<lambda>progData addr start end_addr. ([''RET''], []))\<rparr>"


section \<open>lib/GadgetsFromProcess.go\<close>

text \<open>
  The operating system and the libraries \<^verbatim>\<open>masche\<close> and \<^verbatim>\<open>disasm\<close> are parameters. Their
  calls read and change a world \<open>'w\<close>, which is threaded through the function; \<open>'g\<close> is
  \<^verbatim>\<open>disasm.Gadget\<close>. \<^verbatim>\<open>os.Getpid()\<close> is a constant of the run. The calls are taken to return;
  of the function's own steps, \<^verbatim>\<open>make([]byte, region.Size, region.Size)\<close> panics when the
  size exceeds what the runtime allocates (\<open>maxAlloc\<close>). Next to its results the model
  keeps the sequence of calls made to \<^verbatim>\<open>ptrace\<close> and to \<^verbatim>\<open>memaccess\<close>, and the error-level
  log entry of the deferred function; debug logging is left out.
\<close>

datatype Info = InfoInit Ptr Ptr | InfoInitBytes Ptr Ptr "byte list"

datatype syscall =
    Attach int
  | Detach int
  | NextRegion int Ptr
  | Copy int Ptr nat
  | LogError "error option" string "int list"

record ('w, 'g) host =
  Getpid :: int
  PtraceAttach :: "'w \<Rightarrow> int \<Rightarrow> error option \<times> 'w"
  PtraceDetach :: "'w \<Rightarrow> int \<Rightarrow> error option \<times> 'w"
  NextMemoryRegionAccess ::
    "'w \<Rightarrow> int \<Rightarrow> Ptr \<Rightarrow> nat \<Rightarrow> (MemoryRegion \<times> error option \<times> error list) \<times> 'w"
  CopyMemory :: "'w \<Rightarrow> int \<Rightarrow> Ptr \<Rightarrow> nat \<Rightarrow> (byte list \<times> error option \<times> error list) \<times> 'w"
  GetAllGadgets :: "'w \<Rightarrow> Info \<Rightarrow> int \<Rightarrow> int \<Rightarrow> int \<Rightarrow> int \<Rightarrow> 'g list \<times> error list"
  NoRegionAvailable :: MemoryRegion
  Readable :: nat
  Executable :: nat
  maxAlloc :: nat

text \<open>
  The \<^verbatim>\<open>if pid == 0 ... else ...\<close> block of the loop: the \<^verbatim>\<open>disasm.Info\<close> for a region,
  with the hard error and the soft errors of \<^verbatim>\<open>CopyMemory\<close> when the bytes are copied.
\<close>

definition region_info ::
  "('w, 'g) host \<Rightarrow> int \<Rightarrow> 'w \<Rightarrow> MemoryRegion \<Rightarrow>
   (Info \<times> error option \<times> error list) outcome \<times> 'w \<times> syscall list" where
  "region_info h pid w region =
     (if pid = 0 then
        (Returns (InfoInit (Address region) (Address region + Size region - 1), None, []), w, [])
      else if maxAlloc h < unat (Size region) then
        (Panics ''makeslice: len out of range'', w, [])
      else
        (case CopyMemory h w pid (Address region) (unat (Size region)) of
           ((bytes, harderr3, softerrors3), w') \<Rightarrow>
             (Returns (InfoInitBytes (Address region) (Address region + Size region - 1) bytes,
                       harderr3, softerrors3),
              w', [Copy pid (Address region) (unat (Size region))])))"

text \<open>
  The \<^verbatim>\<open>for\<close> loop. Nothing bounds it: it runs for as long as
  \<^verbatim>\<open>NextMemoryRegionAccess\<close> yields regions, and a run that never ends is \<open>None\<close>.
  \<^verbatim>\<open>softerrors2\<close> is appended before the hard error of the enumeration is tested;
  \<^verbatim>\<open>softerrors3\<close> is appended only after the hard error of the copy was found nil.
\<close>

partial_function (option) regions_loop ::
  "('w, 'g) host \<Rightarrow> int \<Rightarrow> int \<Rightarrow> 'w \<Rightarrow> Ptr \<Rightarrow> error list \<Rightarrow> 'g list \<Rightarrow> syscall list \<Rightarrow>
   (('g list \<times> error option \<times> error list) outcome \<times> 'w \<times> syscall list) option" where
  "regions_loop h pid maxLength w pc softerrors allGadgets trace =
     (case NextMemoryRegionAccess h w pid pc (Readable h + Executable h) of
        ((region, harderror2, softerrors2), w1) \<Rightarrow>
          (case harderror2 of
             Some e \<Rightarrow>
               Some (Returns ([], Some (Wrapf e
                        ''Error when attempting to access the next memory region for Pid %d.''
                        [pid]), softerrors @ softerrors2),
                     w1, trace @ [NextRegion pid pc])
           | None \<Rightarrow>
               if region = NoRegionAvailable h then
                 Some (Returns (allGadgets, None, softerrors @ softerrors2),
                       w1, trace @ [NextRegion pid pc])
               else
                 (case region_info h pid w1 region of
                    (Panics v, w2, calls) \<Rightarrow>
                      Some (Panics v, w2, trace @ NextRegion pid pc # calls)
                  | (Returns (info, Some e, softerrors3), w2, calls) \<Rightarrow>
                      Some (Returns ([], Some (Wrapf e
                               ''Error when attempting to access the memory contents for Pid %d.''
                               [pid]), softerrors @ softerrors2),
                            w2, trace @ NextRegion pid pc # calls)
                  | (Returns (info, None, softerrors3), w2, calls) \<Rightarrow>
                      (case GetAllGadgets h w2 info 2 maxLength 0 100 of
                         (gadgets, errs) \<Rightarrow>
                           regions_loop h pid maxLength w2 (Address region + Size region)
                             (softerrors @ softerrors2 @ softerrors3 @ errs)
                             (allGadgets @ gadgets)
                             (trace @ NextRegion pid pc # calls)))))"

text \<open>
  The deferred function is registered once \<^verbatim>\<open>PtraceAttach\<close> has succeeded, and runs when
  the body returns or panics: it calls \<^verbatim>\<open>PtraceDetach\<close> and, on failure, logs an error
  (with \<^verbatim>\<open>WithError(err)\<close>, where \<^verbatim>\<open>err\<close> is the nil error of the attach). The results
  are unnamed, so it cannot change them.
\<close>

definition GadgetsFromProcess ::
  "('w, 'g) host \<Rightarrow> 'w \<Rightarrow> int \<Rightarrow> int \<Rightarrow>
   (('g list \<times> error option \<times> error list) outcome \<times> 'w \<times> syscall list) option" where
  "GadgetsFromProcess h w pid maxLength =
     (if pid \<noteq> Getpid h then
        (case PtraceAttach h w pid of
           (Some err, w1) \<Rightarrow>
             Some (Returns ([], Some (Wrapf err
                      ''Error when attempting to PtraceAttach to Pid %d from Ropoly.'' [pid]), []),
                   w1, [Attach pid])
         | (None, w1) \<Rightarrow>
             (case regions_loop h pid maxLength w1 0 [] [] [Attach pid] of
                None \<Rightarrow> None
              | Some (result, w2, trace) \<Rightarrow>
                  (case PtraceDetach h w2 pid of
                     (detachErr, w3) \<Rightarrow>
                       Some (result, w3,
                             trace @ Detach pid #
                               (case detachErr of
                                  None \<Rightarrow> []
                                | Some e \<Rightarrow>
                                    [LogError None
                                       ''Unable to deteach Ropoly's PTrace from pid %d. This can lead to resource leaks. Beware.''
                                       [pid]])))))
      else regions_loop h pid maxLength w 0 [] [] [])"







text \<open>The calls to \<^verbatim>\<open>memaccess\<close>, as opposed to \<^verbatim>\<open>ptrace\<close> calls and log entries.\<close>

fun is_region_call :: "syscall \<Rightarrow> bool" where
  "is_region_call (NextRegion pid pc) = True"
| "is_region_call (Copy pid a n) = True"
| "is_region_call _ = False"

text \<open>
  A host with two regions, \<^verbatim>\<open>a.so\<close> at \<^verbatim>\<open>0x1000\<close> and \<^verbatim>\<open>b.so\<close> at \<^verbatim>\<open>0x2000\<close>, 16 bytes
  each, run by process 100. Enumerating the first gives a soft error, the gadgets of the
  second give one; \<^verbatim>\<open>PtraceDetach\<close> always fails. With \<open>eio\<close> set, copying the first
  region fails hard.
\<close>

definition fixture_host :: "bool \<Rightarrow> (unit, Ptr) host" where
  "fixture_host eio =
     \<lparr>Getpid = 100,
      PtraceAttach = (\<lambda>w pid. (None, w)),
      PtraceDetach = (\<lambda>w pid. (Some (External ''ESRCH''), w)),
      NextMemoryRegionAccess = (\<lambda>w pid pc access.
        if pc = 0 then
          ((\<lparr>Address = 0x1000, Size = 0x10, Access = 5, Kind = ''a.so''\<rparr>, None,
            [External ''maps line skipped'']), w)
        else if pc = 0x1010 then
          ((\<lparr>Address = 0x2000, Size = 0x10, Access = 5, Kind = ''b.so''\<rparr>, None, []), w)
        else ((zero_region, None, []), w)),
      CopyMemory = (\<lambda>w pid a n.
        if a = 0x1000 \<and> eio then (([], Some (External ''EIO''), [External ''short read'']), w)
        else (([0xC3], None, []), w)),
      GetAllGadgets = (\<lambda>w info minLength maxLength a b.
        (case info of
           InfoInit lo hi \<Rightarrow> ([lo], [])
         | InfoInitBytes lo hi bytes \<Rightarrow>
             ([lo], if lo = 0x2000 then [External ''bad opcode''] else []))),
      NoRegionAvailable = zero_region,
      Readable = 1,
      Executable = 4,
      maxAlloc = 2 ^ 48\<rparr>"




section \<open>Properties of the decoders\<close>

lemma InstructionDecoder_exactly_one:
  "(\<exists>i. InstructionDecoder x s = (Some i, None)) \<or> (\<exists>e. InstructionDecoder x s = (None, Some e))"
  by (auto simp: InstructionDecoder_def InstructionDecoder_body_def
      split: outcome.splits option.splits prod.splits)

lemma InstructionDecoder_SomeD:
  assumes "InstructionDecoder x s = (Some i, None)"
  shows "\<exists>inst. Decode x s 64 = Returns (inst, None) \<and>
           slice_upto s (InstLen x inst) = Returns (Octets i) \<and>
           InstString x inst = Returns (DisAsm i)"
  using assms
  by (auto simp: InstructionDecoder_def InstructionDecoder_body_def
      split: outcome.splits option.splits prod.splits)

lemma slice_upto_len:
  "slice_upto s n = Returns t \<Longrightarrow> slice_len t = nat n \<and> 0 \<le> n \<and> n \<le> int (slice_cap s)"
  by (auto simp: slice_upto_def slice_len_def slice_cap_def split: if_splits)

lemma slice_from_ok:
  "n \<le> slice_len s \<Longrightarrow> slice_from s n = Returns \<lparr>elems = drop n (elems s), spare = spare s\<rparr>"
  by (simp add: slice_from_def)

lemma loop_total:
  assumes progress: "\<And>s i. Decode x s 64 = Returns (i, None) \<Longrightarrow> 0 < InstLen x i"
  shows "\<exists>g err. GadgetDecoder_loop x s acc = Some (Returns (g, err)) \<and>
           (case err of
              None \<Rightarrow> (\<exists>g'. g = acc @ g' \<and> decoded_chain x s g')
            | Some e \<Rightarrow> g = [] \<and>
                (\<exists>pre e'. aborted_chain x s pre e' \<and>
                   e = Wrapf e' ''Error decoding underlying instruction.'' []))"
proof (induction "slice_len s" arbitrary: s acc rule: less_induct)
  case less
  show ?case
  proof (cases "0 < slice_len s")
    case False
    then show ?thesis
      by (subst GadgetDecoder_loop.simps) (auto intro: exI [of _ "[]"])
  next
    case pos: True
    from InstructionDecoder_exactly_one [of x s] show ?thesis
    proof
      assume "\<exists>e. InstructionDecoder x s = (None, Some e)"
      then obtain e where e: "InstructionDecoder x s = (None, Some e)" ..
      have "aborted_chain x s [] e" using pos e by simp
      then have "\<exists>pre. aborted_chain x s pre e" ..
      then show ?thesis using pos e
        by (subst GadgetDecoder_loop.simps) simp
    next
      assume "\<exists>i. InstructionDecoder x s = (Some i, None)"
      then obtain i where i: "InstructionDecoder x s = (Some i, None)" ..
      from InstructionDecoder_SomeD [OF i] obtain inst where
        d: "Decode x s 64 = Returns (inst, None)" and
        u: "slice_upto s (InstLen x inst) = Returns (Octets i)" by blast
      from progress [OF d] slice_upto_len [OF u] have gl: "0 < slice_len (Octets i)" by simp
      show ?thesis
      proof (cases "slice_len s \<le> slice_len (Octets i)")
        case True
        have "decoded_chain x s [i]" using pos i True by simp
        then have "\<exists>g'. acc @ [i] = acc @ g' \<and> decoded_chain x s g'" by blast
        then show ?thesis using pos i True
          by (subst GadgetDecoder_loop.simps) simp
      next
        case False
        let ?rest = "\<lparr>elems = drop (slice_len (Octets i)) (elems s), spare = spare s\<rparr>"
        have sf: "slice_from s (slice_len (Octets i)) = Returns ?rest"
          using False by (simp add: slice_from_ok)
        have smaller: "slice_len ?rest < slice_len s"
          using gl pos by (simp add: slice_len_def)
        from less [OF smaller, of "acc @ [i]"] obtain g err where
          r: "GadgetDecoder_loop x ?rest (acc @ [i]) = Some (Returns (g, err))" and
          c: "(case err of
              None \<Rightarrow> (\<exists>g'. g = (acc @ [i]) @ g' \<and> decoded_chain x ?rest g')
            | Some e \<Rightarrow> g = [] \<and>
                (\<exists>pre e'. aborted_chain x ?rest pre e' \<and>
                   e = Wrapf e' ''Error decoding underlying instruction.'' []))" by blast
        have step: "GadgetDecoder_loop x s acc = GadgetDecoder_loop x ?rest (acc @ [i])"
          using pos i False sf by (subst GadgetDecoder_loop.simps) simp
        show ?thesis
        proof (cases err)
          case None
          with c obtain g' where g': "g = (acc @ [i]) @ g'" "decoded_chain x ?rest g'" by auto
          have "decoded_chain x s (i # g')" using pos i False g'(2) by simp
          then have "\<exists>h. g = acc @ h \<and> decoded_chain x s h" using g'(1) by auto
          then show ?thesis using step r None by simp
        next
          case (Some e)
          with c obtain pre e' where p: "g = []" "aborted_chain x ?rest pre e'"
            "e = Wrapf e' ''Error decoding underlying instruction.'' []" by auto
          have "aborted_chain x s (i # pre) e'" using pos i False p(2) by simp
          then have "\<exists>pre e'. aborted_chain x s pre e' \<and>
                   e = Wrapf e' ''Error decoding underlying instruction.'' []" using p(3) by blast
          then show ?thesis using step r Some p(1) by simp
        qed
      qed
    qed
  qed
qed


lemma fixture_ret: "InstructionDecoder fixture_x86 \<lparr>elems = 0xC3 # bs, spare = sp\<rparr>
   = (Some \<lparr>Octets = \<lparr>elems = [0xC3], spare = bs @ sp\<rparr>, DisAsm = ''RET''\<rparr>, None)"
  by (simp add: InstructionDecoder_def InstructionDecoder_body_def fixture_x86_def
      slice_upto_def slice_cap_def)

lemma fixture_nop: "InstructionDecoder fixture_x86 \<lparr>elems = 0x90 # bs, spare = sp\<rparr>
   = (Some \<lparr>Octets = \<lparr>elems = [0x90], spare = bs @ sp\<rparr>, DisAsm = ''NOP''\<rparr>, None)"
  by (simp add: InstructionDecoder_def InstructionDecoder_body_def fixture_x86_def
      slice_upto_def slice_cap_def)

lemma fixture_pop: "InstructionDecoder fixture_x86 \<lparr>elems = 0x58 # bs, spare = sp\<rparr>
   = (Some \<lparr>Octets = \<lparr>elems = [0x58], spare = bs @ sp\<rparr>, DisAsm = ''POP RAX''\<rparr>, None)"
  by (simp add: InstructionDecoder_def InstructionDecoder_body_def fixture_x86_def
      slice_upto_def slice_cap_def)

lemma fixture_fault: "InstructionDecoder fixture_x86 \<lparr>elems = 0xCC # bs, spare = sp\<rparr>
   = (None, Some (Errorf ''Unable to decode instruction due to disassembler panic: %v''
         ''index out of range''))"
  by (simp add: InstructionDecoder_def InstructionDecoder_body_def fixture_x86_def)

lemma fixture_progress:
  "Decode fixture_x86 s 64 = Returns (i, None) \<Longrightarrow> 0 < InstLen fixture_x86 i"
  by (auto simp: fixture_x86_def split: list.splits if_splits)

lemma fixture_bounded:
  "Decode fixture_x86 s 64 = Returns (i, None) \<Longrightarrow> InstLen fixture_x86 i \<le> int (slice_len s)"
  by (auto simp: fixture_x86_def slice_len_def split: list.splits if_splits)

lemma fixture_ret_nop:
  "GadgetDecoder fixture_x86 \<lparr>elems = [0xC3, 0x90], spare = []\<rparr> =
     Some (Returns ([\<lparr>Octets = \<lparr>elems = [0xC3], spare = [0x90]\<rparr>, DisAsm = ''RET''\<rparr>,
                     \<lparr>Octets = \<lparr>elems = [0x90], spare = []\<rparr>, DisAsm = ''NOP''\<rparr>], None))"
  unfolding GadgetDecoder_def
  apply (subst GadgetDecoder_loop.simps)
  apply (simp add: fixture_ret slice_len_def slice_from_def)
  apply (subst GadgetDecoder_loop.simps)
  apply (simp add: fixture_nop slice_len_def slice_from_def)
  done

lemma fixture_spec_ret_nop:
  "GadgetDecoder_spec_loop (\<lambda>i. take 3 (DisAsm i) = ''RET'') fixture_x86
      \<lparr>elems = [0xC3, 0x90], spare = []\<rparr> [] =
     Some (Returns ([\<lparr>Octets = \<lparr>elems = [0xC3], spare = [0x90]\<rparr>, DisAsm = ''RET''\<rparr>], None))"
  apply (subst GadgetDecoder_spec_loop.simps)
  apply (simp add: fixture_ret slice_len_def slice_from_def)
  done

lemmas GadgetDecoder_loop_induct =
  GadgetDecoder_loop.raw_induct [where xa = "((x, s), acc)" for x s acc, unfolded prod.case]

lemma loop_success_chain:
  assumes run: "GadgetDecoder_loop x s acc = Some r"
  shows "\<forall>g. r = Returns (g, None) \<longrightarrow> (\<exists>g'. g = acc @ g' \<and> decoded_chain x s g')"
proof -
  let ?Q = "\<lambda>x s acc r. \<forall>g. r = Returns (g, None) \<longrightarrow>
              (\<exists>g'. g = acc @ g' \<and> decoded_chain x s g')"
  have "?Q x s acc r"
  proof (rule GadgetDecoder_loop_induct [where P = ?Q, OF _ run])
    fix loop :: "'a x86asm \<Rightarrow> byteslice \<Rightarrow> Instruction list \<Rightarrow>
                   (Instruction list \<times> error option) outcome option"
    fix x s acc r
    assume IH: "\<And>x s acc r. loop x s acc = Some r \<Longrightarrow> ?Q x s acc r"
    assume body: "(if 0 < slice_len s then
        (case InstructionDecoder x s of
           (instr, Some err) \<Rightarrow>
             Some (Returns ([], Some (Wrapf err ''Error decoding underlying instruction.'' [])))
         | (None, None) \<Rightarrow> Some (Panics ''nil pointer dereference'')
         | (Some instr, None) \<Rightarrow>
             (if slice_len s \<le> slice_len (Octets instr)
              then Some (Returns (acc @ [instr], None))
              else (case slice_from s (slice_len (Octets instr)) of
                      Panics v \<Rightarrow> Some (Panics v)
                    | Returns rest \<Rightarrow> loop x rest (acc @ [instr]))))
      else Some (Returns (acc, None))) = Some r"
    show "?Q x s acc r"
    proof (intro allI impI)
      fix g assume r: "r = Returns (g, None)"
      show "\<exists>g'. g = acc @ g' \<and> decoded_chain x s g'"
      proof (cases "0 < slice_len s")
        case False
        with body r have "g = acc" by simp
        moreover have "decoded_chain x s []" using False by simp
        ultimately show ?thesis by (intro exI [of _ "[]"]) simp
      next
        case pos: True
        from InstructionDecoder_exactly_one [of x s] show ?thesis
        proof
          assume "\<exists>e. InstructionDecoder x s = (None, Some e)"
          with body r pos show ?thesis by auto
        next
          assume "\<exists>i. InstructionDecoder x s = (Some i, None)"
          then obtain i where i: "InstructionDecoder x s = (Some i, None)" ..
          show ?thesis
          proof (cases "slice_len s \<le> slice_len (Octets i)")
            case True
            with body r pos i have "g = acc @ [i]" by simp
            moreover have "decoded_chain x s [i]" using pos i True by simp
            ultimately show ?thesis by blast
          next
            case False
            let ?rest = "\<lparr>elems = drop (slice_len (Octets i)) (elems s), spare = spare s\<rparr>"
            have sf: "slice_from s (slice_len (Octets i)) = Returns ?rest"
              using False by (simp add: slice_from_ok)
            from body pos i False sf have "loop x ?rest (acc @ [i]) = Some r" by simp
            from IH [OF this] r obtain g' where
              g': "g = (acc @ [i]) @ g'" "decoded_chain x ?rest g'" by blast
            have "decoded_chain x s (i # g')" using pos i False g'(2) by simp
            with g'(1) show ?thesis by (intro exI [of _ "i # g'"]) simp
          qed
        qed
      qed
    qed
  qed
  then show ?thesis .
qed

lemma slice_upto_prefix:
  "slice_upto s n = Returns t \<Longrightarrow> n \<le> int (slice_len s) \<Longrightarrow>
     elems t = take (slice_len t) (elems s) \<and> slice_len t \<le> slice_len s"
  by (auto simp: slice_upto_def slice_len_def split: if_splits)

lemma chain_octets:
  assumes bounded: "\<And>s i. Decode x s 64 = Returns (i, None) \<Longrightarrow> InstLen x i \<le> int (slice_len s)"
  shows "decoded_chain x s g \<Longrightarrow> gadget_octets g = elems s"
proof (induction g arbitrary: s)
  case Nil
  then show ?case by (simp add: gadget_octets_def slice_len_def)
next
  case (Cons i g)
  from Cons.prems have i: "InstructionDecoder x s = (Some i, None)" by simp
  from InstructionDecoder_SomeD [OF i] obtain inst where
    d: "Decode x s 64 = Returns (inst, None)" and
    u: "slice_upto s (InstLen x inst) = Returns (Octets i)" by blast
  note pre = slice_upto_prefix [OF u bounded [OF d]]
  have oct: "elems (Octets i) = take (slice_len (Octets i)) (elems s)"
    by (rule pre [THEN conjunct1])
  have le: "slice_len (Octets i) \<le> slice_len s"
    by (rule pre [THEN conjunct2])
  show ?case
  proof (cases "slice_len s \<le> slice_len (Octets i)")
    case True
    with Cons.prems have g: "g = []" by simp
    have "elems (Octets i) = elems s"
      using True by (subst oct) (simp add: slice_len_def)
    with g show ?thesis by (simp add: gadget_octets_def)
  next
    case False
    let ?rest = "\<lparr>elems = drop (slice_len (Octets i)) (elems s), spare = spare s\<rparr>"
    from Cons.prems False have "decoded_chain x ?rest g" by simp
    from Cons.IH [OF this] have "gadget_octets g = drop (slice_len (Octets i)) (elems s)" by simp
    then have "gadget_octets (i # g) = elems (Octets i) @ drop (slice_len (Octets i)) (elems s)"
      by (simp add: gadget_octets_def)
    also have "\<dots> = elems s" by (subst oct) simp
    finally show ?thesis .
  qed
qed

lemma chain_nth:
  "decoded_chain x s g \<Longrightarrow> k < length g \<Longrightarrow>
     InstructionDecoder x
       \<lparr>elems = drop (length (gadget_octets (take k g))) (elems s), spare = spare s\<rparr>
     = (Some (g ! k), None)"
proof (induction g arbitrary: s k)
  case Nil
  then show ?case by simp
next
  case (Cons i g)
  show ?case
  proof (cases k)
    case 0
    with Cons.prems show ?thesis by (cases s) (simp add: gadget_octets_def)
  next
    case (Suc j)
    with Cons.prems have j: "j < length g" by simp
    then have "g \<noteq> []" by auto
    let ?rest = "\<lparr>elems = drop (slice_len (Octets i)) (elems s), spare = spare s\<rparr>"
    from Cons.prems \<open>g \<noteq> []\<close> have "decoded_chain x ?rest g" by (simp split: if_splits)
    from Cons.IH [OF this j] show ?thesis using Suc
      by (simp add: gadget_octets_def slice_len_def add.commute)
  qed
qed



section \<open>Properties of the comparator and the builder\<close>

lemma map_of_record_displacements:
  "map_of (record_displacements As Bs gd) a =
     (if a \<in> set As then Some (map (\<lambda>b. b - a) Bs) else map_of gd a)"
  unfolding record_displacements_def
  by (induction As arbitrary: gd) (auto simp: update_conv')

lemma map_of_displacements_uniform:
  assumes "\<forall>(S, As) \<in> set G. a \<in> set (slice_elems As) \<longrightarrow> slice_elems (go_lookup newG S) = Bs"
  shows "map_of (fold (\<lambda>(sig, addresses).
                record_displacements (slice_elems addresses) (slice_elems (go_lookup newG sig)))
            G gd) a =
         (if \<exists>(S, As) \<in> set G. a \<in> set (slice_elems As)
          then Some (map (\<lambda>b. b - a) Bs) else map_of gd a)"
  using assms
proof (induction G arbitrary: gd)
  case Nil
  then show ?case by simp
next
  case (Cons p G)
  obtain S As where p: "p = (S, As)" by (cases p)
  from Cons.prems have rest: "\<forall>(S, As) \<in> set G. a \<in> set (slice_elems As) \<longrightarrow>
     slice_elems (go_lookup newG S) = Bs" by simp
  from Cons.prems p have here: "a \<in> set (slice_elems As) \<Longrightarrow> slice_elems (go_lookup newG S) = Bs"
    by simp
  show ?case
    using here by (simp add: p Cons.IH [OF rest] map_of_record_displacements)
qed

lemma map_of_displacements_source:
  "map_of (fold (\<lambda>(sig, addresses).
                record_displacements (slice_elems addresses) (slice_elems (go_lookup newG sig)))
            G gd) a = Some v \<Longrightarrow>
   map_of gd a = Some v \<or>
   (\<exists>(S, As) \<in> set G. a \<in> set (slice_elems As) \<and>
       v = map (\<lambda>b. b - a) (slice_elems (go_lookup newG S)))"
proof (induction G arbitrary: gd)
  case Nil
  then show ?case by simp
next
  case (Cons p G)
  obtain S As where p: "p = (S, As)" by (cases p)
  from Cons.prems have "map_of (fold (\<lambda>(sig, addresses).
                record_displacements (slice_elems addresses) (slice_elems (go_lookup newG sig)))
            G (record_displacements (slice_elems As) (slice_elems (go_lookup newG S)) gd)) a = Some v"
    by (simp add: p)
  from Cons.IH [OF this] show ?case
    by (auto simp: p map_of_record_displacements split: if_splits)
qed

lemma zero_offsets: "length (filter (\<lambda>d. d = 0) (map (\<lambda>b. b - a) Bs)) = count_list Bs (a :: 64 word)"
  by (induction Bs) auto

lemma count_list_distinct: "distinct xs \<Longrightarrow> x \<in> set xs \<Longrightarrow> count_list xs x = 1"
  by (induction xs) auto

lemma go_lookup_distinct:
  "distinct (map fst m) \<Longrightarrow> (k, v) \<in> set m \<Longrightarrow> go_lookup m k = v"
  by (simp add: go_lookup_def)

lemma added_keys:
  "fst ` set (fold (\<lambda>(sig, addresses) added.
                if go_lookup oldG sig = None then AList.update sig addresses added
                else added) G acc) \<subseteq> fst ` set acc \<union> {S \<in> fst ` set G. go_lookup oldG S = None}"
proof (induction G arbitrary: acc)
  case Nil
  then show ?case by simp
next
  case (Cons p G)
  obtain S As where p: "p = (S, As)" by (cases p)
  show ?case
    using Cons.IH [of "if go_lookup oldG S = None then AList.update S As acc else acc"]
    by (auto simp: p dom_update split: if_splits)
qed


lemma go_lookup_filter_other:
  "k \<noteq> S \<Longrightarrow> go_lookup (filter (\<lambda>(S', As). S' \<noteq> S) m) k = go_lookup m k"
  by (induction m) (auto simp: go_lookup_def)

lemma go_lookup_absent: "k \<notin> fst ` set m \<Longrightarrow> go_lookup m k = None"
  by (simp add: go_lookup_def map_of_eq_None_iff [THEN iffD2])

lemma added_fold_cong:
  assumes "\<And>sig As. (sig, As) \<in> set G \<Longrightarrow> go_lookup oldG sig = None \<longleftrightarrow> go_lookup oldG' sig = None"
  shows "fold (\<lambda>(sig, addresses) added.
                if go_lookup oldG sig = None then AList.update sig addresses added
                else added) G acc =
         fold (\<lambda>(sig, addresses) added.
                if go_lookup oldG' sig = None then AList.update sig addresses added
                else added) G acc"
proof (intro fold_cong refl)
  fix x assume x: "x \<in> set G"
  obtain sig As where p: "x = (sig, As)" by (cases x)
  from assms [of sig As] x p
  have "go_lookup oldG sig = None \<longleftrightarrow> go_lookup oldG' sig = None" by simp
  then show "(case x of (sig, addresses) \<Rightarrow> \<lambda>added.
                if go_lookup oldG sig = None then AList.update sig addresses added
                else added) =
          (case x of (sig, addresses) \<Rightarrow> \<lambda>added.
                if go_lookup oldG' sig = None then AList.update sig addresses added
                else added)"
    by (simp add: p)
qed

lemma sum_list_const_on: "(\<And>x. x \<in> set xs \<Longrightarrow> f x = (c::nat)) \<Longrightarrow> sum_list (map f xs) = length xs * c"
  by (induction xs) auto

lemma removed_and_shared_self:
  assumes "\<forall>k \<in> fst ` set rest. \<exists>r. go_lookup f k = Some r"
  shows "\<exists>cs. removed_and_shared f f rest ret =
               Returns (ret\<lparr>SharedRegionComparisons := SharedRegionComparisons ret @ cs\<rparr>) \<and>
              (\<forall>c \<in> set cs. \<exists>k r. k \<in> fst ` set rest \<and> go_lookup f k = Some r \<and>
                                    c = compareFingerprintRegions r r)"
  using assms
proof (induction rest arbitrary: ret)
  case Nil
  show ?case by (intro exI [of _ "[]"]) simp
next
  case (Cons p rest)
  obtain k m where p: "p = (k, m)" by (cases p)
  from Cons.prems p obtain r where r: "go_lookup f k = Some r" by auto
  let ?ret = "ret\<lparr>SharedRegionComparisons :=
                    SharedRegionComparisons ret @ [compareFingerprintRegions r r]\<rparr>"
  from Cons.prems have "\<forall>k \<in> fst ` set rest. \<exists>r. go_lookup f k = Some r" by simp
  from Cons.IH [OF this, of ?ret] obtain cs where
    cs: "removed_and_shared f f rest ?ret =
           Returns (?ret\<lparr>SharedRegionComparisons := SharedRegionComparisons ?ret @ cs\<rparr>)"
    and all: "\<forall>c \<in> set cs. \<exists>k r. k \<in> fst ` set rest \<and> go_lookup f k = Some r \<and>
                                    c = compareFingerprintRegions r r" by blast
  have "removed_and_shared f f (p # rest) ret =
          Returns (ret\<lparr>SharedRegionComparisons :=
                    SharedRegionComparisons ret @ (compareFingerprintRegions r r # cs)\<rparr>)"
    using cs by (simp add: p r)
  moreover have "\<forall>c \<in> set (compareFingerprintRegions r r # cs).
       \<exists>k r. k \<in> fst ` set (p # rest) \<and> go_lookup f k = Some r \<and>
             c = compareFingerprintRegions r r"
  proof
    fix c assume "c \<in> set (compareFingerprintRegions r r # cs)"
    then consider "c = compareFingerprintRegions r r" | "c \<in> set cs" by auto
    then show "\<exists>k r. k \<in> fst ` set (p # rest) \<and> go_lookup f k = Some r \<and>
             c = compareFingerprintRegions r r"
    proof cases
      case 1
      have "k \<in> fst ` set (p # rest)" by (simp add: p)
      with r 1 show ?thesis by blast
    next
      case 2
      with all obtain k' r' where "k' \<in> fst ` set rest" "go_lookup f k' = Some r'"
        "c = compareFingerprintRegions r' r'" by blast
      moreover have "fst ` set rest \<subseteq> fst ` set (p # rest)" by auto
      ultimately show ?thesis by blast
    qed
  qed
  ultimately show ?case by blast
qed
lemma added_regions_self:
  "\<forall>k \<in> fst ` set rest. go_lookup f k \<noteq> None \<Longrightarrow> added_regions f rest ret = Returns ret"
  by (induction rest arbitrary: ret) auto
lemma wellformed_lookup:
  assumes "wellformed f" and "k \<in> fst ` set f"
  shows "\<exists>r. go_lookup f k = Some r \<and> (k, Some r) \<in> set f \<and> distinct (map fst (Gadgets r))"
proof -
  from assms(2) obtain p where p: "(k, p) \<in> set f" by auto
  with assms(1) obtain r where r: "p = Some r" "distinct (map fst (Gadgets r))"
    by (auto simp: wellformed_def list_all_iff split: option.splits)
  from assms(1) p have "go_lookup f k = p"
    by (simp add: wellformed_def go_lookup_distinct)
  with p r show ?thesis by blast
qed
lemma self_comparison_vector:
  assumes "distinct (map fst (Gadgets r))"
    and "map_of (GadgetDisplacements (compareFingerprintRegions r r)) a = Some v"
  shows "\<exists>S As. (S, As) \<in> set (Gadgets r) \<and> a \<in> set (slice_elems As) \<and>
                 v = map (\<lambda>b. b - a) (slice_elems As)"
proof -
  from assms(2) map_of_displacements_source [of "Gadgets r" "Gadgets r" "[]" a v]
  obtain S As where e: "(S, As) \<in> set (Gadgets r)" "a \<in> set (slice_elems As)"
      "v = map (\<lambda>b. b - a) (slice_elems (go_lookup (Gadgets r) S))"
    by (auto simp: compareFingerprintRegions_def)
  from assms(1) e(1) have "go_lookup (Gadgets r) S = As" by (rule go_lookup_distinct)
  with e show ?thesis by blast
qed
lemma count_list_pos: "x \<in> set xs \<Longrightarrow> 0 < count_list xs x"
  by (induction xs) auto
lemma go_lookup_update:
  "go_lookup (AList.update k (Some v) m) k' = (if k' = k then Some v else go_lookup m k')"
  by (simp add: go_lookup_def update_conv')

lemma go_lookup_Nil: "go_lookup [] k = None"
  by (simp add: go_lookup_def)

lemma region_of_on_gadget:
  "region_of (fst (on_gadget g (fp, sec))) K =
     (if K = Kind sec
      then Some (case region_of fp K of None \<Rightarrow> sec | Some r \<Rightarrow> r)
      else region_of fp K)"
  by (simp add: on_gadget_def region_of_def Let_def go_lookup_update split: option.splits)

lemma first_region_Cons:
  "first_region ((r, g) # ps) K = (if Kind r = K then Some r else first_region ps K)"
  by (simp add: first_region_def)

lemma addresses_in_on_gadget:
  "addresses_in (fst (on_gadget g (fp, sec))) K S =
     addresses_in fp K S @
       (if K = Kind sec \<and> S = Signature g then [GadgetAddress g] else [])"
  by (auto simp: on_gadget_def addresses_in_def Let_def go_lookup_update go_lookup_Nil
      slice_elems_def split: option.splits)

lemma snd_on_gadget: "snd (on_gadget g st) = snd st"
  by (simp add: on_gadget_def Let_def)

lemma distinct_on_gadget:
  "distinct (map fst (fst st)) \<Longrightarrow> distinct (map fst (fst (on_gadget g st)))"
  by (simp add: on_gadget_def Let_def distinct_update)

lemma distinct_builder:
  "distinct (map fst (fst st)) \<Longrightarrow> distinct (map fst (fst (fold on_callback calls st)))"
proof (induction calls arbitrary: st)
  case Nil
  then show ?case by simp
next
  case (Cons c calls)
  then show ?case by (cases c) (simp_all add: distinct_on_gadget)
qed

lemma addresses_in_builder:
  "addresses_in (fst (fold on_callback calls (fp, sec))) K S =
     addresses_in fp K S @ addresses_of (emitted sec calls) K S"
proof (induction calls arbitrary: fp sec)
  case Nil
  then show ?case by (simp add: addresses_of_def)
next
  case (Cons c calls)
  show ?case
  proof (cases c)
    case (RegionFound r)
    then show ?thesis using Cons.IH [of fp r] by simp
  next
    case (GadgetFound g)
    obtain fp' where st: "on_gadget g (fp, sec) = (fp', sec)"
      using snd_on_gadget [of g "(fp, sec)"] by (cases "on_gadget g (fp, sec)") simp
    have "addresses_in fp' K S = addresses_in fp K S @
       (if K = Kind sec \<and> S = Signature g then [GadgetAddress g] else [])"
      using addresses_in_on_gadget [of g fp sec K S] st by simp
    then show ?thesis using Cons.IH [of fp' sec] GadgetFound st
      by (simp add: addresses_of_def)
  qed
qed

lemma region_of_builder:
  "region_of (fst (fold on_callback calls (fp, sec))) K =
     (case region_of fp K of
        Some r \<Rightarrow> Some r
      | None \<Rightarrow> first_region (emitted sec calls) K)"
proof (induction calls arbitrary: fp sec)
  case Nil
  then show ?case by (simp add: first_region_def split: option.splits)
next
  case (Cons c calls)
  show ?case
  proof (cases c)
    case (RegionFound r)
    then show ?thesis using Cons.IH [of fp r] by (simp split: option.splits)
  next
    case (GadgetFound g)
    obtain fp' where st: "on_gadget g (fp, sec) = (fp', sec)"
      using snd_on_gadget [of g "(fp, sec)"] by (cases "on_gadget g (fp, sec)") simp
    have step: "region_of fp' K =
     (if K = Kind sec
      then Some (case region_of fp K of None \<Rightarrow> sec | Some r \<Rightarrow> r)
      else region_of fp K)"
      using region_of_on_gadget [of g fp sec K] st by simp
    show ?thesis using Cons.IH [of fp' sec] GadgetFound st step
      by (auto simp: first_region_Cons split: option.splits)
  qed
qed

section \<open>Properties of the process enumerator\<close>

lemma region_info_calls:
  "region_info h pid w region = (x, w2, calls) \<Longrightarrow> list_all is_region_call calls"
  by (auto simp: region_info_def split: if_splits prod.splits)

lemma next_region_cases:
  obtains region he se2 w1 where
    "NextMemoryRegionAccess h w pid pc access = ((region, he, se2), w1)"
proof (cases "NextMemoryRegionAccess h w pid pc access")
  case (Pair t w1)
  then show ?thesis using that by (cases t) auto
qed

lemma regions_loop_trace:
  fixes h :: "('w, 'g) host"
  assumes run: "regions_loop h pid n w pc S G T = Some r"
  shows "\<exists>res w' mid. r = (res, w', T @ mid) \<and> list_all is_region_call mid"
proof -
  let ?Q = "\<lambda>(h :: ('w, 'g) host) (pid :: int) (n :: int) (w :: 'w) (pc :: Ptr)
              (S :: error list) (G :: 'g list) T r.
              \<exists>res w' mid. r = (res, w', T @ mid) \<and> list_all is_region_call mid"
  have "?Q h pid n w pc S G T r"
  proof (rule regions_loop.raw_induct [where P = ?Q, OF _ run])
    fix loop :: "('w, 'g) host \<Rightarrow> int \<Rightarrow> int \<Rightarrow> 'w \<Rightarrow> Ptr \<Rightarrow> error list \<Rightarrow> 'g list \<Rightarrow> syscall list \<Rightarrow>
                 (('g list \<times> error option \<times> error list) outcome \<times> 'w \<times> syscall list) option"
    fix h pid n w pc S G T r
    assume IH: "\<And>h pid n w pc S G T r. loop h pid n w pc S G T = Some r \<Longrightarrow> ?Q h pid n w pc S G T r"
    assume body: "(case NextMemoryRegionAccess h w pid pc (Readable h + Executable h) of
        ((region, harderror2, softerrors2), w1) \<Rightarrow>
          (case harderror2 of
             Some e \<Rightarrow>
               Some (Returns ([], Some (Wrapf e
                        ''Error when attempting to access the next memory region for Pid %d.''
                        [pid]), S @ softerrors2),
                     w1, T @ [NextRegion pid pc])
           | None \<Rightarrow>
               if region = NoRegionAvailable h then
                 Some (Returns (G, None, S @ softerrors2),
                       w1, T @ [NextRegion pid pc])
               else
                 (case region_info h pid w1 region of
                    (Panics v, w2, calls) \<Rightarrow>
                      Some (Panics v, w2, T @ NextRegion pid pc # calls)
                  | (Returns (info, Some e, softerrors3), w2, calls) \<Rightarrow>
                      Some (Returns ([], Some (Wrapf e
                               ''Error when attempting to access the memory contents for Pid %d.''
                               [pid]), S @ softerrors2),
                            w2, T @ NextRegion pid pc # calls)
                  | (Returns (info, None, softerrors3), w2, calls) \<Rightarrow>
                      (case GetAllGadgets h w2 info 2 n 0 100 of
                         (gadgets, errs) \<Rightarrow>
                           loop h pid n w2 (Address region + Size region)
                             (S @ softerrors2 @ softerrors3 @ errs)
                             (G @ gadgets)
                             (T @ NextRegion pid pc # calls))))) = Some r"
    obtain region he se2 w1 where
      nx: "NextMemoryRegionAccess h w pid pc (Readable h + Executable h) = ((region, he, se2), w1)"
      by (rule next_region_cases)
    show "?Q h pid n w pc S G T r"
    proof (cases he)
      case (Some e)
      with body nx have "r = (Returns ([], Some (Wrapf e
                        ''Error when attempting to access the next memory region for Pid %d.''
                        [pid]), S @ se2), w1, T @ [NextRegion pid pc])" by simp
      moreover have "list_all is_region_call [NextRegion pid pc]" by simp
      ultimately show ?thesis by blast
    next
      case None
      show ?thesis
      proof (cases "region = NoRegionAvailable h")
        case True
        with body nx None have "r = (Returns (G, None, S @ se2), w1, T @ [NextRegion pid pc])"
          by simp
        moreover have "list_all is_region_call [NextRegion pid pc]" by simp
        ultimately show ?thesis by blast
      next
        case False
        obtain x w2 calls where ri: "region_info h pid w1 region = (x, w2, calls)"
          by (metis prod_cases3)
        from region_info_calls [OF ri]
        have calls: "list_all is_region_call (NextRegion pid pc # calls)" by simp
        show ?thesis
        proof (cases x)
          case (Panics v)
          with body nx None False ri
          have "r = (Panics v, w2, T @ NextRegion pid pc # calls)" by simp
          with calls show ?thesis by blast
        next
          case (Returns t)
          obtain info e3 se3 where t: "t = (info, e3, se3)" by (metis prod_cases3)
          show ?thesis
          proof (cases e3)
            case (Some e)
            with body nx None False ri Returns t
            have "r = (Returns ([], Some (Wrapf e
                               ''Error when attempting to access the memory contents for Pid %d.''
                               [pid]), S @ se2), w2, T @ NextRegion pid pc # calls)" by simp
            with calls show ?thesis by blast
          next
            case no3: None
            obtain gadgets errs where g: "GetAllGadgets h w2 info 2 n 0 100 = (gadgets, errs)"
              by (cases "GetAllGadgets h w2 info 2 n 0 100")
            from body nx None False ri Returns t no3 g
            have "loop h pid n w2 (Address region + Size region) (S @ se2 @ se3 @ errs)
                    (G @ gadgets) (T @ NextRegion pid pc # calls) = Some r" by simp
            from IH [OF this] obtain res w' mid where
              r: "r = (res, w', (T @ NextRegion pid pc # calls) @ mid)"
              and m: "list_all is_region_call mid" by blast
            from r have "r = (res, w', T @ ((NextRegion pid pc # calls) @ mid))" by simp
            moreover from calls m have "list_all is_region_call ((NextRegion pid pc # calls) @ mid)"
              by simp
            ultimately show ?thesis by blast
          qed
        qed
      qed
    qed
  qed
  then show ?thesis .
qed



lemma sections_run:
  assumes "sections_then api b secs (sectionExists, addr, progData, err) b'"
    and "sectionExists \<longrightarrow> err \<noteq> None"
  shows "(case nextSectionData api b of
            (current, b1) \<Rightarrow>
              DisassembleFile_loop api start end_addr current b1 allInstructions softerrs) =
         Some ((if sectionExists then ([], err, [])
                else (allInstructions @
                        concat (map (\<lambda>(a, d). fst (Disasm api d a start end_addr)) secs),
                      None,
                      softerrs @
                        concat (map (\<lambda>(a, d). snd (Disasm api d a start end_addr)) secs))),
               b')"
  using assms
proof (induction secs arbitrary: b allInstructions softerrs)
  case Nil
  then have nx: "nextSectionData api b = ((sectionExists, addr, progData, err), b')" by simp
  show ?case
  proof (cases sectionExists)
    case True
    with Nil.prems obtain e where "err = Some e" by auto
    with True nx show ?thesis by (simp add: DisassembleFile_loop.simps [of _ _ _ "(True, addr, progData, Some e)"])
  next
    case False
    with nx show ?thesis by (simp add: DisassembleFile_loop.simps [of _ _ _ "(False, addr, progData, err)"])
  qed
next
  case (Cons s secs)
  obtain a d where s: "s = (a, d)" by (cases s)
  obtain current b1 where nx: "nextSectionData api b = (current, b1)"
    by (cases "nextSectionData api b")
  from Cons.prems s nx have cur: "current = (True, a, d, None)"
    and rest: "sections_then api b1 secs (sectionExists, addr, progData, err) b'" by simp_all
  obtain instrs errs where dis: "Disasm api d a start end_addr = (instrs, errs)"
    by (cases "Disasm api d a start end_addr")
  have step: "DisassembleFile_loop api start end_addr (True, a, d, None) b1 allInstructions softerrs =
     (case nextSectionData api b1 of
        (current, b2) \<Rightarrow>
          DisassembleFile_loop api start end_addr current b2
            (allInstructions @ instrs) (softerrs @ errs))"
    by (subst DisassembleFile_loop.simps) (simp add: dis)
  from Cons.IH [OF rest Cons.prems(2), of "allInstructions @ instrs" "softerrs @ errs"]
  show ?case by (simp add: nx cur step s dis)
qed

lemma fixture_clean_run:
  "pid \<noteq> 0 \<Longrightarrow>
   regions_loop (fixture_host False) pid 2 () 0 S G T =
     Some (Returns (G @ [0x1000, 0x2000], None,
                    S @ [External ''maps line skipped'', External ''bad opcode'']),
           (), T @ [NextRegion pid 0, Copy pid 0x1000 16, NextRegion pid 0x1010,
                    Copy pid 0x2000 16, NextRegion pid 0x2010])"
  apply (subst regions_loop.simps)
  apply (simp add: fixture_host_def region_info_def zero_region_def)
  apply (subst regions_loop.simps)
  apply (simp add: fixture_host_def region_info_def zero_region_def)
  apply (subst regions_loop.simps)
  apply (simp add: fixture_host_def region_info_def zero_region_def)
  done

lemma fixture_eio_run:
  "pid \<noteq> 0 \<Longrightarrow>
   regions_loop (fixture_host True) pid 2 () 0 S G T =
     Some (Returns ([], Some (Wrapf (External ''EIO'')
                      ''Error when attempting to access the memory contents for Pid %d.'' [pid]),
                    S @ [External ''maps line skipped'']),
           (), T @ [NextRegion pid 0, Copy pid 0x1000 16])"
  apply (subst regions_loop.simps)
  apply (simp add: fixture_host_def region_info_def zero_region_def)
  done


section \<open>Claims about the decoders\<close>

text \<open>
  Claim C6. On every slice \<^verbatim>\<open>InstructionDecoder\<close> returns exactly one of an instruction and
  an error, and which one is fixed by what the disassembler does on that slice: a panic
  of \<^verbatim>\<open>x86asm.Decode\<close> is recovered and returned as the error
  \<^verbatim>\<open>fmt.Errorf("... disassembler panic: %v", x)\<close>; an error of \<^verbatim>\<open>x86asm.Decode\<close> is returned
  wrapped; on success a length outside the slice's capacity makes the slicing panic and a
  panic of \<^verbatim>\<open>inst.String()\<close> may follow, both recovered in the same way; otherwise the
  instruction holds the first \<^verbatim>\<open>inst.Len\<close> bytes as octets and the disassembly string. The
  result depends on the disassembler only through its answer on this very slice: its
  behaviour on any other slice, a failure at another offset included, can be changed at
  will without changing the result.
\<close>

theorem InstructionDecoder_contains_faults:
  "InstructionDecoder x opcodes =
     (case Decode x opcodes 64 of
        Panics v \<Rightarrow>
          (None, Some (Errorf ''Unable to decode instruction due to disassembler panic: %v'' v))
      | Returns (inst, Some e) \<Rightarrow>
          (None, Some (Wrapf e ''Unable to decode instruction.'' []))
      | Returns (inst, None) \<Rightarrow>
          if InstLen x inst < 0 \<or>
             int (length (elems opcodes) + length (spare opcodes)) < InstLen x inst
          then (None, Some (Errorf ''Unable to decode instruction due to disassembler panic: %v''
                              ''slice bounds out of range''))
          else (case InstString x inst of
                  Panics v \<Rightarrow>
                    (None, Some (Errorf
                       ''Unable to decode instruction due to disassembler panic: %v'' v))
                | Returns s \<Rightarrow>
                    (Some \<lparr>Octets =
                             \<lparr>elems = take (nat (InstLen x inst)) (elems opcodes @ spare opcodes),
                              spare = drop (nat (InstLen x inst)) (elems opcodes @ spare opcodes)\<rparr>,
                           DisAsm = s\<rparr>,
                     None))) \<and>
   ((\<exists>i. InstructionDecoder x opcodes = (Some i, None)) \<or>
    (\<exists>e. InstructionDecoder x opcodes = (None, Some e))) \<and>
   (decode opcodes 64 = Decode x opcodes 64 \<longrightarrow>
      InstructionDecoder (x\<lparr>Decode := decode\<rparr>) opcodes = InstructionDecoder x opcodes)"
proof (intro conjI impI)
  show "InstructionDecoder x opcodes =
     (case Decode x opcodes 64 of
        Panics v \<Rightarrow>
          (None, Some (Errorf ''Unable to decode instruction due to disassembler panic: %v'' v))
      | Returns (inst, Some e) \<Rightarrow>
          (None, Some (Wrapf e ''Unable to decode instruction.'' []))
      | Returns (inst, None) \<Rightarrow>
          if InstLen x inst < 0 \<or>
             int (length (elems opcodes) + length (spare opcodes)) < InstLen x inst
          then (None, Some (Errorf ''Unable to decode instruction due to disassembler panic: %v''
                              ''slice bounds out of range''))
          else (case InstString x inst of
                  Panics v \<Rightarrow>
                    (None, Some (Errorf
                       ''Unable to decode instruction due to disassembler panic: %v'' v))
                | Returns s \<Rightarrow>
                    (Some \<lparr>Octets =
                             \<lparr>elems = take (nat (InstLen x inst)) (elems opcodes @ spare opcodes),
                              spare = drop (nat (InstLen x inst)) (elems opcodes @ spare opcodes)\<rparr>,
                           DisAsm = s\<rparr>,
                     None)))"
    by (simp add: InstructionDecoder_def InstructionDecoder_body_def slice_upto_def slice_cap_def
        split: outcome.splits option.splits prod.splits)
next
  show "(\<exists>i. InstructionDecoder x opcodes = (Some i, None)) \<or>
    (\<exists>e. InstructionDecoder x opcodes = (None, Some e))"
    by (rule InstructionDecoder_exactly_one)
next
  assume "decode opcodes 64 = Decode x opcodes 64"
  then show "InstructionDecoder (x\<lparr>Decode := decode\<rparr>) opcodes = InstructionDecoder x opcodes"
    by (simp add: InstructionDecoder_def InstructionDecoder_body_def
        split: outcome.splits option.splits prod.splits)
qed

text \<open>
  At the slice \<^verbatim>\<open>CC C3\<close> the disassembler panics and at \<^verbatim>\<open>06\<close> it fails: the decoder
  returns the errors. A disassembler that panics everywhere but on the slice \<^verbatim>\<open>C3\<close> still
  gives \<^verbatim>\<open>RET\<close> there.
\<close>

theorem InstructionDecoder_contains_faults_witness:
  "InstructionDecoder fixture_x86 \<lparr>elems = [0xCC, 0xC3], spare = []\<rparr> =
     (None, Some (Errorf ''Unable to decode instruction due to disassembler panic: %v''
                    ''index out of range'')) \<and>
   InstructionDecoder fixture_x86 \<lparr>elems = [0x06], spare = []\<rparr> =
     (None, Some (Wrapf (External ''unrecognized instruction'')
                    ''Unable to decode instruction.'' [])) \<and>
   InstructionDecoder
     (fixture_x86\<lparr>Decode := \<lambda>s mode. if elems s = [0xC3] then Decode fixture_x86 s mode
                                       else Panics ''index out of range''\<rparr>)
     \<lparr>elems = [0xC3], spare = []\<rparr> =
     (Some \<lparr>Octets = \<lparr>elems = [0xC3], spare = []\<rparr>, DisAsm = ''RET''\<rparr>, None)"
proof -
  let ?s = "\<lparr>elems = [0xCC, 0xC3], spare = []\<rparr>"
  let ?u = "\<lparr>elems = [0x06], spare = []\<rparr>"
  let ?t = "\<lparr>elems = [0xC3], spare = []\<rparr>"
  let ?d = "\<lambda>s mode. if elems s = [0xC3] then Decode fixture_x86 s mode
                    else Panics ''index out of range''"
  have a: "InstructionDecoder fixture_x86 ?s =
     (None, Some (Errorf ''Unable to decode instruction due to disassembler panic: %v''
                    ''index out of range''))"
    using InstructionDecoder_contains_faults [of fixture_x86 ?s]
    by (simp add: fixture_x86_def)
  have b: "InstructionDecoder fixture_x86 ?u =
     (None, Some (Wrapf (External ''unrecognized instruction'')
                    ''Unable to decode instruction.'' []))"
    using InstructionDecoder_contains_faults [of fixture_x86 ?u]
    by (simp add: fixture_x86_def)
  have "?d ?t 64 = Decode fixture_x86 ?t 64" by simp
  with InstructionDecoder_contains_faults [of fixture_x86 ?t ?d]
  have "InstructionDecoder (fixture_x86\<lparr>Decode := ?d\<rparr>) ?t = InstructionDecoder fixture_x86 ?t"
    by blast
  then have c: "InstructionDecoder (fixture_x86\<lparr>Decode := ?d\<rparr>) ?t =
     (Some \<lparr>Octets = \<lparr>elems = [0xC3], spare = []\<rparr>, DisAsm = ''RET''\<rparr>, None)"
    using fixture_ret [of "[]" "[]"] by simp
  from a b c show ?thesis by blast
qed

text \<open>
  \<^verbatim>\<open>GadgetDecoder\<close> has no test for control-flow-terminating instructions. On \<^verbatim>\<open>C3 90\<close> it
  appends \<^verbatim>\<open>RET\<close> and goes on to append \<^verbatim>\<open>NOP\<close>, where the loop of section 4.2 stops
  after \<^verbatim>\<open>RET\<close>.
\<close>

theorem GadgetDecoder_ignores_terminators_counterexample:
  "GadgetDecoder fixture_x86 \<lparr>elems = [0xC3, 0x90], spare = []\<rparr> =
     Some (Returns ([\<lparr>Octets = \<lparr>elems = [0xC3], spare = [0x90]\<rparr>, DisAsm = ''RET''\<rparr>,
                     \<lparr>Octets = \<lparr>elems = [0x90], spare = []\<rparr>, DisAsm = ''NOP''\<rparr>], None)) \<and>
   GadgetDecoder_spec_loop (\<lambda>i. take 3 (DisAsm i) = ''RET'') fixture_x86
       \<lparr>elems = [0xC3, 0x90], spare = []\<rparr> [] =
     Some (Returns ([\<lparr>Octets = \<lparr>elems = [0xC3], spare = [0x90]\<rparr>, DisAsm = ''RET''\<rparr>], None)) \<and>
   GadgetDecoder fixture_x86 \<lparr>elems = [0xC3, 0x90], spare = []\<rparr> \<noteq>
     GadgetDecoder_spec_loop (\<lambda>i. take 3 (DisAsm i) = ''RET'') fixture_x86
       \<lparr>elems = [0xC3, 0x90], spare = []\<rparr> []"
  by (simp add: fixture_ret_nop fixture_spec_ret_nop)

text \<open>
  Claim C1, amended. When the disassembler consumes at least one byte whenever it
  succeeds, \<^verbatim>\<open>GadgetDecoder\<close> returns on every slice, without panicking. It returns either
  the gadget of all instructions decoded at consecutive offsets until the slice is
  exhausted (whether or not one of them is control-flow-terminating), with a nil error;
  or, when the instruction decoder fails at one of these offsets, a nil gadget and that
  error wrapped by \<^verbatim>\<open>errors.Wrapf\<close>: never a partial gadget.
\<close>

theorem GadgetDecoder_decodes_until_exhausted:
  assumes progress: "\<And>s i. Decode x s 64 = Returns (i, None) \<Longrightarrow> 0 < InstLen x i"
  shows "\<exists>g err. GadgetDecoder x opcodes = Some (Returns (g, err)) \<and>
           (case err of
              None \<Rightarrow> decoded_chain x opcodes g
            | Some e \<Rightarrow> g = [] \<and>
                (\<exists>pre e'. aborted_chain x opcodes pre e' \<and>
                   e = Wrapf e' ''Error decoding underlying instruction.'' []))"
proof -
  have "\<exists>g err. GadgetDecoder_loop x opcodes [] = Some (Returns (g, err)) \<and>
           (case err of
              None \<Rightarrow> (\<exists>g'. g = [] @ g' \<and> decoded_chain x opcodes g')
            | Some e \<Rightarrow> g = [] \<and>
                (\<exists>pre e'. aborted_chain x opcodes pre e' \<and>
                   e = Wrapf e' ''Error decoding underlying instruction.'' []))"
    by (rule loop_total) (rule progress)
  then obtain g err where
    r: "GadgetDecoder_loop x opcodes [] = Some (Returns (g, err))" and
    c: "(case err of
              None \<Rightarrow> (\<exists>g'. g = [] @ g' \<and> decoded_chain x opcodes g')
            | Some e \<Rightarrow> g = [] \<and>
                (\<exists>pre e'. aborted_chain x opcodes pre e' \<and>
                   e = Wrapf e' ''Error decoding underlying instruction.'' []))"
    by blast
  from c have "(case err of
              None \<Rightarrow> decoded_chain x opcodes g
            | Some e \<Rightarrow> g = [] \<and>
                (\<exists>pre e'. aborted_chain x opcodes pre e' \<and>
                   e = Wrapf e' ''Error decoding underlying instruction.'' []))"
    by (cases err) auto
  with r show ?thesis unfolding GadgetDecoder_def by blast
qed

text \<open>The fixture disassembler makes progress; on \<^verbatim>\<open>C3 90\<close> the chain is \<^verbatim>\<open>RET\<close>, \<^verbatim>\<open>NOP\<close>.\<close>

theorem GadgetDecoder_decodes_until_exhausted_witness:
  "decoded_chain fixture_x86 \<lparr>elems = [0xC3, 0x90], spare = []\<rparr>
     [\<lparr>Octets = \<lparr>elems = [0xC3], spare = [0x90]\<rparr>, DisAsm = ''RET''\<rparr>,
      \<lparr>Octets = \<lparr>elems = [0x90], spare = []\<rparr>, DisAsm = ''NOP''\<rparr>]"
proof -
  let ?s = "\<lparr>elems = [0xC3, 0x90], spare = []\<rparr>"
  have "\<exists>g err. GadgetDecoder fixture_x86 ?s = Some (Returns (g, err)) \<and>
           (case err of
              None \<Rightarrow> decoded_chain fixture_x86 ?s g
            | Some e \<Rightarrow> g = [] \<and>
                (\<exists>pre e'. aborted_chain fixture_x86 ?s pre e' \<and>
                   e = Wrapf e' ''Error decoding underlying instruction.'' []))"
    by (rule GadgetDecoder_decodes_until_exhausted) (rule fixture_progress)
  then show ?thesis by (simp add: fixture_ret_nop del: decoded_chain.simps)
qed

text \<open>
  Claim C8. Let the disassembler report, on success, a length that does not exceed the
  length of the slice it was given (as \<^verbatim>\<open>x86asm.Decode\<close> does). Whenever \<^verbatim>\<open>GadgetDecoder\<close>
  succeeds with gadget \<open>g\<close>, the octets of the instructions of \<open>g\<close>, concatenated in
  order, are the input slice; and the octets of the \<open>k\<close>-th instruction are the first
  \<^verbatim>\<open>inst.Len\<close> bytes of the slice the disassembler was given for it, which starts where
  the octets of the instructions before it end.
\<close>

theorem GadgetDecoder_octets_roundtrip:
  assumes bounded: "\<And>s i. Decode x s 64 = Returns (i, None) \<Longrightarrow> InstLen x i \<le> int (slice_len s)"
    and ok: "GadgetDecoder x opcodes = Some (Returns (g, None))"
  shows "gadget_octets g = elems opcodes \<and>
         (\<forall>k < length g. \<exists>inst.
            Decode x \<lparr>elems = drop (length (gadget_octets (take k g))) (elems opcodes),
                      spare = spare opcodes\<rparr> 64 = Returns (inst, None) \<and>
            elems (Octets (g ! k)) =
              take (nat (InstLen x inst))
                (drop (length (gadget_octets (take k g))) (elems opcodes)))"
proof -
  from ok loop_success_chain [of x opcodes "[]" "Returns (g, None)"]
  have chain: "decoded_chain x opcodes g" by (simp add: GadgetDecoder_def)
  have "gadget_octets g = elems opcodes"
    using bounded chain by (rule chain_octets)
  moreover have "\<exists>inst.
            Decode x \<lparr>elems = drop (length (gadget_octets (take k g))) (elems opcodes),
                      spare = spare opcodes\<rparr> 64 = Returns (inst, None) \<and>
            elems (Octets (g ! k)) =
              take (nat (InstLen x inst))
                (drop (length (gadget_octets (take k g))) (elems opcodes))"
    if k: "k < length g" for k
  proof -
    let ?rest = "\<lparr>elems = drop (length (gadget_octets (take k g))) (elems opcodes),
                      spare = spare opcodes\<rparr>"
    from InstructionDecoder_SomeD [OF chain_nth [OF chain k]] obtain inst where
      d: "Decode x ?rest 64 = Returns (inst, None)" and
      u: "slice_upto ?rest (InstLen x inst) = Returns (Octets (g ! k))" by blast
    from slice_upto_prefix [OF u bounded [OF d]] slice_upto_len [OF u]
    have "elems (Octets (g ! k)) = take (nat (InstLen x inst)) (elems ?rest)" by simp
    with d show ?thesis by auto
  qed
  ultimately show ?thesis by blast
qed

text \<open>On \<^verbatim>\<open>C3 90\<close> the octets \<^verbatim>\<open>C3\<close> and \<^verbatim>\<open>90\<close> concatenate to the input.\<close>

theorem GadgetDecoder_octets_roundtrip_witness:
  "gadget_octets
     [\<lparr>Octets = \<lparr>elems = [0xC3], spare = [0x90]\<rparr>, DisAsm = ''RET''\<rparr>,
      \<lparr>Octets = \<lparr>elems = [0x90], spare = []\<rparr>, DisAsm = ''NOP''\<rparr>] = [0xC3, 0x90]"
proof -
  let ?g = "[\<lparr>Octets = \<lparr>elems = [0xC3], spare = [0x90]\<rparr>, DisAsm = ''RET''\<rparr>,
      \<lparr>Octets = \<lparr>elems = [0x90], spare = []\<rparr>, DisAsm = ''NOP''\<rparr>]"
  have "gadget_octets ?g = elems \<lparr>elems = [0xC3, 0x90], spare = []\<rparr> \<and>
         (\<forall>k < length ?g. \<exists>inst.
            Decode fixture_x86 \<lparr>elems = drop (length (gadget_octets (take k ?g)))
                        (elems \<lparr>elems = [0xC3, 0x90], spare = []\<rparr>),
                      spare = spare \<lparr>elems = [0xC3, 0x90], spare = []\<rparr>\<rparr> 64 = Returns (inst, None) \<and>
            elems (Octets (?g ! k)) =
              take (nat (InstLen fixture_x86 inst))
                (drop (length (gadget_octets (take k ?g)))
                   (elems \<lparr>elems = [0xC3, 0x90], spare = []\<rparr>)))"
    by (rule GadgetDecoder_octets_roundtrip) (erule fixture_bounded, rule fixture_ret_nop)
  then show ?thesis by simp
qed


section \<open>Claims about the comparator and the builder\<close>

text \<open>
  Comparing a fingerprint with itself when an address is listed twice under one signature,
  and when a region pointer is nil: the vector of the repeated address holds two zeros,
  and the nil pointer makes the comparison panic.
\<close>

theorem compare_with_itself_counterexample:
  "compareFingerprints
     [(''.text'', Some \<lparr>Region = text_region, Gadgets = [(''RET'', Some [0x1000, 0x1000])]\<rparr>)]
     [(''.text'', Some \<lparr>Region = text_region, Gadgets = [(''RET'', Some [0x1000, 0x1000])]\<rparr>)] =
   Returns \<lparr>RemovedRegions = [],
            SharedRegionComparisons =
              [\<lparr>Region_cmp = text_region, Displacement = 0,
                GadgetDisplacements = [(0x1000, [0, 0])], AddedGadgets = []\<rparr>],
            AddedRegions = []\<rparr> \<and>
   compareFingerprints [(''.text'', None)] [(''.text'', None)] = Panics ''nil pointer dereference''"
  by (simp add: compareFingerprints_def compareFingerprintRegions_def record_displacements_def
      slice_elems_def go_lookup_def)

text \<open>
  Claim C4, amended. For every well-formed fingerprint \<open>f\<close> (distinct keys, no nil region
  pointer), \<^verbatim>\<open>compareFingerprints(f, f)\<close> returns with \<^verbatim>\<open>AddedRegions\<close> and
  \<^verbatim>\<open>RemovedRegions\<close> empty, every shared-region comparison has \<^verbatim>\<open>Displacement\<close> zero, and
  every vector of \<^verbatim>\<open>GadgetDisplacements\<close>, stored under an address \<open>a\<close>, comes from a
  signature of a region of \<open>f\<close> that lists \<open>a\<close> and holds one zero entry for each
  occurrence of \<open>a\<close> in that signature's address list: at least one, and exactly one
  when the list has no duplicates.
\<close>

theorem compare_with_itself:
  assumes wf: "wellformed f"
  shows "\<exists>ret. compareFingerprints f f = Returns ret \<and>
           AddedRegions ret = [] \<and> RemovedRegions ret = [] \<and>
           (\<forall>c \<in> set (SharedRegionComparisons ret).
              Displacement c = 0 \<and>
              (\<forall>a v. map_of (GadgetDisplacements c) a = Some v \<longrightarrow>
                 (\<exists>k r S As. (k, Some r) \<in> set f \<and> (S, As) \<in> set (Gadgets r) \<and>
                    a \<in> set (slice_elems As) \<and>
                    length (filter (\<lambda>d. d = 0) v) = count_list (slice_elems As) a \<and>
                    0 < count_list (slice_elems As) a \<and>
                    (distinct (slice_elems As) \<longrightarrow> length (filter (\<lambda>d. d = 0) v) = 1))))"
proof -
  let ?init = "\<lparr>RemovedRegions = [], SharedRegionComparisons = [], AddedRegions = []\<rparr>"
  have present: "\<forall>k \<in> fst ` set f. \<exists>r. go_lookup f k = Some r"
    using wellformed_lookup [OF wf] by blast
  from removed_and_shared_self [OF present, of ?init] obtain cs where
    first: "removed_and_shared f f f ?init =
              Returns (?init\<lparr>SharedRegionComparisons := SharedRegionComparisons ?init @ cs\<rparr>)"
    and all: "\<forall>c \<in> set cs. \<exists>k r. k \<in> fst ` set f \<and> go_lookup f k = Some r \<and>
                                    c = compareFingerprintRegions r r" by blast
  let ?ret = "\<lparr>RemovedRegions = [], SharedRegionComparisons = cs, AddedRegions = []\<rparr>"
  have second: "added_regions f f ?ret = Returns ?ret"
    using present by (intro added_regions_self) auto
  have run: "compareFingerprints f f = Returns ?ret"
    using first second by (simp add: compareFingerprints_def)
  have each: "Displacement c = 0 \<and>
              (\<forall>a v. map_of (GadgetDisplacements c) a = Some v \<longrightarrow>
                 (\<exists>k r S As. (k, Some r) \<in> set f \<and> (S, As) \<in> set (Gadgets r) \<and>
                    a \<in> set (slice_elems As) \<and>
                    length (filter (\<lambda>d. d = 0) v) = count_list (slice_elems As) a \<and>
                    0 < count_list (slice_elems As) a \<and>
                    (distinct (slice_elems As) \<longrightarrow> length (filter (\<lambda>d. d = 0) v) = 1)))"
    if c: "c \<in> set cs" for c
  proof -
    from all c obtain k r where k: "k \<in> fst ` set f" "go_lookup f k = Some r"
      and cr: "c = compareFingerprintRegions r r" by blast
    from wellformed_lookup [OF wf k(1)] k(2)
    have mem: "(k, Some r) \<in> set f" and dk: "distinct (map fst (Gadgets r))" by auto
    have d0: "Displacement c = 0" by (simp add: cr compareFingerprintRegions_def)
    have "\<exists>k r S As. (k, Some r) \<in> set f \<and> (S, As) \<in> set (Gadgets r) \<and>
                    a \<in> set (slice_elems As) \<and>
                    length (filter (\<lambda>d. d = 0) v) = count_list (slice_elems As) a \<and>
                    0 < count_list (slice_elems As) a \<and>
                    (distinct (slice_elems As) \<longrightarrow> length (filter (\<lambda>d. d = 0) v) = 1)"
      if v: "map_of (GadgetDisplacements c) a = Some v" for a v
    proof -
      from self_comparison_vector [OF dk v [unfolded cr]] obtain S As where
        e: "(S, As) \<in> set (Gadgets r)" "a \<in> set (slice_elems As)"
           "v = map (\<lambda>b. b - a) (slice_elems As)" by blast
      have z: "length (filter (\<lambda>d. d = 0) v) = count_list (slice_elems As) a"
        by (simp only: e(3) zero_offsets)
      have pos: "0 < count_list (slice_elems As) a" using e(2) by (rule count_list_pos)
      have one: "distinct (slice_elems As) \<longrightarrow> length (filter (\<lambda>d. d = 0) v) = 1"
        using z e(2) by (simp add: count_list_distinct)
      from mem e(1,2) z pos one show ?thesis by blast
    qed
    with d0 show ?thesis by blast
  qed
  from run each show ?thesis by (intro exI [of _ ?ret]) simp
qed
text \<open>A fingerprint with one region and one signature at two addresses, compared with itself.\<close>

theorem compare_with_itself_witness:
  "\<exists>ret. compareFingerprints
     [(''.text'', Some \<lparr>Region = text_region, Gadgets = [(''RET'', Some [0x1000, 0x1008])]\<rparr>)]
     [(''.text'', Some \<lparr>Region = text_region, Gadgets = [(''RET'', Some [0x1000, 0x1008])]\<rparr>)] =
       Returns ret \<and>
     AddedRegions ret = [] \<and> RemovedRegions ret = [] \<and>
     map Displacement (SharedRegionComparisons ret) = [0] \<and>
     map GadgetDisplacements (SharedRegionComparisons ret) =
       [[(0x1000, [0, 8]), (0x1008, [0xFFFFFFFFFFFFFFF8, 0])]]"
proof -
  let ?f = "[(''.text'', Some \<lparr>Region = text_region, Gadgets = [(''RET'', Some [0x1000, 0x1008 :: Ptr])]\<rparr>)]"
  have "wellformed ?f" by (simp add: wellformed_def)
  from compare_with_itself [OF this] obtain ret where
    "compareFingerprints ?f ?f = Returns ret" "AddedRegions ret = []" "RemovedRegions ret = []"
    by blast
  then show ?thesis
    by (auto simp: compareFingerprints_def compareFingerprintRegions_def record_displacements_def
      slice_elems_def go_lookup_def)
qed

text \<open>
  An address listed under two signatures of the old region. The vector stored under it is
  the one of the signature visited last, so the sizes recorded for the addresses of
  \<^verbatim>\<open>CALL RAX; RET\<close> sum to 1, not to \<open>1 * 2\<close>.
\<close>

theorem displacement_overwritten_counterexample:
  "sum_list (map (\<lambda>a. length (displacement_vector
       (compareFingerprintRegions
          \<lparr>Region = text_region, Gadgets = [(''CALL RAX; RET'', Some [0x1000]), (''CALL RAX'', Some [0x1000])]\<rparr>
          \<lparr>Region = text_region, Gadgets = [(''CALL RAX; RET'', Some [0x2000, 0x3000]), (''CALL RAX'', Some [0x2000])]\<rparr>)
       a)) [0x1000 :: Ptr]) = 1 \<and>
   length [0x1000 :: Ptr] * length [0x2000, 0x3000 :: Ptr] = 2"
  by (simp add: compareFingerprintRegions_def displacement_vector_def record_displacements_def
      slice_elems_def go_lookup_def)

text \<open>
  Claim C5, amended. Let \<open>S\<close> be a signature of the old region whose addresses are listed
  under no other signature of the old region. Then every old address \<open>a\<close> of \<open>S\<close> has
  the vector of the offsets \<open>b - a\<close> over the new addresses \<open>b\<close> of \<open>S\<close>, in their order,
  and the sizes of these vectors, summed over the old addresses of \<open>S\<close>, give the number
  of old addresses times the number of new addresses.
\<close>

theorem displacement_sizes_sum:
  assumes entry: "(S, As) \<in> set (Gadgets old)"
    and alone: "\<forall>(S', As') \<in> set (Gadgets old).
                  S' \<noteq> S \<longrightarrow> set (slice_elems As') \<inter> set (slice_elems As) = {}"
  shows "(\<forall>a \<in> set (slice_elems As).
            map_of (GadgetDisplacements (compareFingerprintRegions old new)) a =
              Some (map (\<lambda>b. b - a) (slice_elems (go_lookup (Gadgets new) S)))) \<and>
         sum_list (map (\<lambda>a. length (displacement_vector (compareFingerprintRegions old new) a))
                     (slice_elems As)) =
           length (slice_elems As) * length (slice_elems (go_lookup (Gadgets new) S))"
proof -
  let ?Bs = "slice_elems (go_lookup (Gadgets new) S)"
  have vec: "map_of (GadgetDisplacements (compareFingerprintRegions old new)) a =
              Some (map (\<lambda>b. b - a) ?Bs)" if a: "a \<in> set (slice_elems As)" for a
  proof -
    have uni: "\<forall>(S', As') \<in> set (Gadgets old). a \<in> set (slice_elems As') \<longrightarrow>
                 slice_elems (go_lookup (Gadgets new) S') = ?Bs"
      using alone a by fastforce
    have ex: "\<exists>(S', As') \<in> set (Gadgets old). a \<in> set (slice_elems As')"
      using entry a by blast
    show ?thesis
      using ex by (simp add: compareFingerprintRegions_def map_of_displacements_uniform [OF uni])
  qed
  have "\<And>a. a \<in> set (slice_elems As) \<Longrightarrow>
          length (displacement_vector (compareFingerprintRegions old new) a) = length ?Bs"
    by (simp add: displacement_vector_def vec)
  then have "sum_list (map (\<lambda>a. length (displacement_vector (compareFingerprintRegions old new) a))
                     (slice_elems As)) = length (slice_elems As) * length ?Bs"
    by (rule sum_list_const_on)
  with vec show ?thesis by blast
qed
text \<open>Two old addresses and three new ones: six offsets.\<close>

theorem displacement_sizes_sum_witness:
  "sum_list (map (\<lambda>a. length (displacement_vector
       (compareFingerprintRegions
          \<lparr>Region = text_region, Gadgets = [(''RET'', Some [0x1000, 0x1010])]\<rparr>
          \<lparr>Region = text_region, Gadgets = [(''RET'', Some [0x2000, 0x2010, 0x2020])]\<rparr>)
       a)) [0x1000, 0x1010 :: Ptr]) = 6"
  using displacement_sizes_sum [of "''RET''" "Some [0x1000, 0x1010]"
          "\<lparr>Region = text_region, Gadgets = [(''RET'', Some [0x1000, 0x1010])]\<rparr>"
          "\<lparr>Region = text_region, Gadgets = [(''RET'', Some [0x2000, 0x2010, 0x2020])]\<rparr>"]
  by (simp add: slice_elems_def go_lookup_def)
text \<open>
  \<^verbatim>\<open>CALL RAX; RET\<close> is in the old region only, but its address is also listed under
  \<^verbatim>\<open>CALL RAX\<close>, which is visited later and present in the new region: the vector stored
  under the address is not empty.
\<close>

theorem removed_sig_overwritten_counterexample:
  "go_lookup [(''CALL RAX'', Some [0x2000 :: Ptr])] ''CALL RAX; RET'' = None \<and>
   map_of (GadgetDisplacements
     (compareFingerprintRegions
        \<lparr>Region = text_region,
          Gadgets = [(''CALL RAX; RET'', Some [0x1000]), (''CALL RAX'', Some [0x1000])]\<rparr>
        \<lparr>Region = text_region, Gadgets = [(''CALL RAX'', Some [0x2000])]\<rparr>)) 0x1000 =
     Some [0x1000]"
  by (simp add: compareFingerprintRegions_def record_displacements_def
      slice_elems_def go_lookup_def)
text \<open>
  Claim C7, amended. Let \<open>S\<close> be a signature of the old region that is not a key of the new
  region's gadget map, and \<open>a\<close> an old address of \<open>S\<close> that is listed under no other
  signature of the old region. Then the vector stored under \<open>a\<close> is empty. \<open>S\<close> is not a
  key of \<^verbatim>\<open>AddedGadgets\<close>, and the other three fields of the comparison (there is no fourth)
  are what they would be had \<open>S\<close> not been in the old region at all.
\<close>

theorem removed_sig_yields_empty_vectors:
  assumes entry: "(S, As) \<in> set (Gadgets old)"
    and absent: "S \<notin> fst ` set (Gadgets new)"
    and a: "a \<in> set (slice_elems As)"
    and alone: "\<forall>(S', As') \<in> set (Gadgets old). S' \<noteq> S \<longrightarrow> a \<notin> set (slice_elems As')"
  shows "map_of (GadgetDisplacements (compareFingerprintRegions old new)) a = Some [] \<and>
         S \<notin> fst ` set (AddedGadgets (compareFingerprintRegions old new)) \<and>
         Region_cmp (compareFingerprintRegions old new) =
           Region_cmp (compareFingerprintRegions (without_sig S old) new) \<and>
         Displacement (compareFingerprintRegions old new) =
           Displacement (compareFingerprintRegions (without_sig S old) new) \<and>
         AddedGadgets (compareFingerprintRegions old new) =
           AddedGadgets (compareFingerprintRegions (without_sig S old) new)"
proof -
  have none: "go_lookup (Gadgets new) S = None"
    using absent by (rule go_lookup_absent)
  have uni: "\<forall>(S', As') \<in> set (Gadgets old). a \<in> set (slice_elems As') \<longrightarrow>
               slice_elems (go_lookup (Gadgets new) S') = []"
    using alone none by (fastforce simp: slice_elems_def)
  have ex: "\<exists>(S', As') \<in> set (Gadgets old). a \<in> set (slice_elems As')"
    using entry a by blast
  have vec: "map_of (GadgetDisplacements (compareFingerprintRegions old new)) a = Some []"
    using ex by (simp add: compareFingerprintRegions_def map_of_displacements_uniform [OF uni])
  have "fst ` set (AddedGadgets (compareFingerprintRegions old new)) \<subseteq> fst ` set (Gadgets new)"
    using added_keys [of "Gadgets old" "Gadgets new" "[]"]
    by (auto simp: compareFingerprintRegions_def)
  with absent have notadded: "S \<notin> fst ` set (AddedGadgets (compareFingerprintRegions old new))"
    by blast
  have same: "AddedGadgets (compareFingerprintRegions old new) =
           AddedGadgets (compareFingerprintRegions (without_sig S old) new)"
  proof -
    have "go_lookup (Gadgets old) sig = None \<longleftrightarrow>
          go_lookup (filter (\<lambda>(S', As). S' \<noteq> S) (Gadgets old)) sig = None"
      if "(sig, Bs) \<in> set (Gadgets new)" for sig Bs
    proof -
      from that absent have "sig \<noteq> S" by force
      then show ?thesis by (simp add: go_lookup_filter_other)
    qed
    then have "fold (\<lambda>(sig, addresses) added.
                if go_lookup (Gadgets old) sig = None then AList.update sig addresses added
                else added) (Gadgets new) [] =
         fold (\<lambda>(sig, addresses) added.
                if go_lookup (filter (\<lambda>(S', As). S' \<noteq> S) (Gadgets old)) sig = None
                then AList.update sig addresses added
                else added) (Gadgets new) []"
      by (rule added_fold_cong)
    then show ?thesis
      by (simp add: compareFingerprintRegions_def without_sig_def)
  qed
  from vec notadded same show ?thesis
    by (simp add: compareFingerprintRegions_def without_sig_def)
qed
text \<open>\<^verbatim>\<open>POP RAX; RET\<close> at \<^verbatim>\<open>0x1000\<close> is gone from the new region: its vector is empty.\<close>

theorem removed_sig_yields_empty_vectors_witness:
  "map_of (GadgetDisplacements
     (compareFingerprintRegions
        \<lparr>Region = text_region,
          Gadgets = [(''POP RAX; RET'', Some [0x1000]), (''RET'', Some [0x1001])]\<rparr>
        \<lparr>Region = text_region, Gadgets = [(''RET'', Some [0x2001])]\<rparr>)) 0x1000 = Some []"
  using removed_sig_yields_empty_vectors [of "''POP RAX; RET''" "Some [0x1000]"
     "\<lparr>Region = text_region,
          Gadgets = [(''POP RAX; RET'', Some [0x1000]), (''RET'', Some [0x1001])]\<rparr>"
     "\<lparr>Region = text_region, Gadgets = [(''RET'', Some [0x2001])]\<rparr>" "0x1000"]
  by (simp add: slice_elems_def)
text \<open>
  Two regions of one kind, the first without gadgets: the region stored for the kind is
  the second one.
\<close>

theorem Fingerprint_region_of_first_gadget_counterexample:
  "Fingerprint
     (\<lambda>spec :: unit.
        ([RegionFound \<lparr>Address = 0x1000, Size = 0x100, Access = 5, Kind = ''libc.so''\<rparr>,
          RegionFound \<lparr>Address = 0x5000, Size = 0x100, Access = 5, Kind = ''libc.so''\<rparr>,
          GadgetFound \<lparr>GadgetAddress = 0x5004, Signature = ''RET''\<rparr>], None, [])) () =
   ([(''libc.so'',
      Some \<lparr>Region = \<lparr>Address = 0x5000, Size = 0x100, Access = 5, Kind = ''libc.so''\<rparr>,
            Gadgets = [(''RET'', Some [0x5004])]\<rparr>)], None, [])"
  by (simp add: Fingerprint_def zero_region_def on_gadget_def go_lookup_def slice_elems_def Let_def)

text \<open>
  Claim C9, amended. The fingerprint built by \<^verbatim>\<open>Fingerprint\<close> has distinct keys: a kind has at
  most one \<^verbatim>\<open>FingerprintRegion\<close>. A kind has one exactly when a gadget was found while a
  region of that kind was current; its \<^verbatim>\<open>Region\<close> is then the region that was current at
  the first such gadget (regions without gadgets leave no trace), and under every
  signature it lists the addresses of all gadgets of that kind and signature, from
  whichever region of the kind, in the order they were found. The errors of
  \<^verbatim>\<open>OperateOnGadgets\<close> are returned unchanged.
\<close>

theorem Fingerprint_merges_by_kind:
  "distinct (map fst (fst (Fingerprint OperateOnGadgets spec))) \<and>
   (\<forall>kind. region_of (fst (Fingerprint OperateOnGadgets spec)) kind =
      first_region (emitted zero_region (fst (OperateOnGadgets spec))) kind) \<and>
   (\<forall>kind sig. addresses_in (fst (Fingerprint OperateOnGadgets spec)) kind sig =
      addresses_of (emitted zero_region (fst (OperateOnGadgets spec))) kind sig) \<and>
   snd (Fingerprint OperateOnGadgets spec) = snd (OperateOnGadgets spec)"
proof -
  obtain calls harderror softerrors where
    run: "OperateOnGadgets spec = (calls, harderror, softerrors)"
    by (cases "OperateOnGadgets spec") auto
  have fp: "fst (Fingerprint OperateOnGadgets spec) =
              fst (fold on_callback calls ([], zero_region))"
    by (simp add: Fingerprint_def run zero_region_def)
  have "distinct (map fst (fst (fold on_callback calls ([], zero_region))))"
    by (rule distinct_builder) simp
  moreover have "region_of (fst (fold on_callback calls ([], zero_region))) kind =
      first_region (emitted zero_region calls) kind" for kind
    by (simp add: region_of_builder) (simp add: region_of_def go_lookup_Nil)
  moreover have "addresses_in (fst (fold on_callback calls ([], zero_region))) kind sig =
      addresses_of (emitted zero_region calls) kind sig" for kind sig
    by (simp add: addresses_in_builder) (simp add: addresses_in_def go_lookup_Nil)
  moreover have "snd (Fingerprint OperateOnGadgets spec) = snd (OperateOnGadgets spec)"
    by (simp add: Fingerprint_def run)
  ultimately show ?thesis by (simp add: fp run)
qed

text \<open>Two regions of one kind with one gadget each: one entry, the first region, both addresses.\<close>

theorem Fingerprint_merges_by_kind_witness:
  "region_of (fst (Fingerprint
     (\<lambda>spec :: unit.
        ([RegionFound \<lparr>Address = 0x1000, Size = 0x100, Access = 5, Kind = ''libc.so''\<rparr>,
          GadgetFound \<lparr>GadgetAddress = 0x1004, Signature = ''RET''\<rparr>,
          RegionFound \<lparr>Address = 0x5000, Size = 0x100, Access = 5, Kind = ''libc.so''\<rparr>,
          GadgetFound \<lparr>GadgetAddress = 0x5004, Signature = ''RET''\<rparr>], None, [])) ())) ''libc.so'' =
     Some \<lparr>Address = 0x1000, Size = 0x100, Access = 5, Kind = ''libc.so''\<rparr> \<and>
   addresses_in (fst (Fingerprint
     (\<lambda>spec :: unit.
        ([RegionFound \<lparr>Address = 0x1000, Size = 0x100, Access = 5, Kind = ''libc.so''\<rparr>,
          GadgetFound \<lparr>GadgetAddress = 0x1004, Signature = ''RET''\<rparr>,
          RegionFound \<lparr>Address = 0x5000, Size = 0x100, Access = 5, Kind = ''libc.so''\<rparr>,
          GadgetFound \<lparr>GadgetAddress = 0x5004, Signature = ''RET''\<rparr>], None, [])) ())) ''libc.so'' ''RET'' =
     [0x1004, 0x5004]"
  using Fingerprint_merges_by_kind
     [of "\<lambda>spec :: unit.
        ([RegionFound \<lparr>Address = 0x1000, Size = 0x100, Access = 5, Kind = ''libc.so''\<rparr>,
          GadgetFound \<lparr>GadgetAddress = 0x1004, Signature = ''RET''\<rparr>,
          RegionFound \<lparr>Address = 0x5000, Size = 0x100, Access = 5, Kind = ''libc.so''\<rparr>,
          GadgetFound \<lparr>GadgetAddress = 0x5004, Signature = ''RET''\<rparr>], None, [])" "()"]
  by (simp add: first_region_def addresses_of_def)

section \<open>Claims about the process enumerator and the file disassembler\<close>




text \<open>
  \<^verbatim>\<open>PtraceDetach\<close> fails after a traversal without hard error: the failure is logged, and
  the soft errors returned are those of the regions only.
\<close>

theorem detach_failure_only_logged_counterexample:
  "GadgetsFromProcess (fixture_host False) () 200 2 =
     Some (Returns ([0x1000, 0x2000], None,
                    [External ''maps line skipped'', External ''bad opcode'']),
           (), [Attach 200, NextRegion 200 0, Copy 200 0x1000 16, NextRegion 200 0x1010,
                Copy 200 0x2000 16, NextRegion 200 0x2010, Detach 200,
                LogError None
                  ''Unable to deteach Ropoly's PTrace from pid %d. This can lead to resource leaks. Beware.''
                  [200]]) \<and>
   PtraceDetach (fixture_host False) () 200 = (Some (External ''ESRCH''), ())"
  using fixture_clean_run [of 200 "[]" "[]" "[Attach 200]"]
  by (simp add: GadgetsFromProcess_def) (simp add: fixture_host_def)

text \<open>
  Claim C3, amended. Let \<open>pid\<close> differ from the current process and \<^verbatim>\<open>PtraceAttach\<close>
  succeed. Whenever \<^verbatim>\<open>GadgetsFromProcess\<close> returns or panics (normal return, either
  hard-error return, panic of \<^verbatim>\<open>make\<close>), its result is exactly the result of the loop, and
  the calls made are: the attach, then the calls to \<^verbatim>\<open>memaccess\<close>, then one \<^verbatim>\<open>PtraceDetach\<close>
  of \<open>pid\<close>, then, if the detach failed, one error-level log entry. A failed detach
  changes neither the hard error nor the soft errors returned.
\<close>

theorem detach_on_every_return:
  assumes other: "pid \<noteq> Getpid h"
    and attach: "PtraceAttach h w pid = (None, w1)"
    and returns: "GadgetsFromProcess h w pid maxLength = Some (result, w', trace)"
  shows "\<exists>w2 mid.
           regions_loop h pid maxLength w1 0 [] [] [Attach pid] =
             Some (result, w2, Attach pid # mid) \<and>
           list_all is_region_call mid \<and>
           w' = snd (PtraceDetach h w2 pid) \<and>
           trace = Attach pid # mid @ Detach pid #
             (case fst (PtraceDetach h w2 pid) of
                None \<Rightarrow> []
              | Some e \<Rightarrow>
                  [LogError None
                     ''Unable to deteach Ropoly's PTrace from pid %d. This can lead to resource leaks. Beware.''
                     [pid]])"
proof -
  from other attach returns obtain r where
    body: "regions_loop h pid maxLength w1 0 [] [] [Attach pid] = Some r"
    by (cases "regions_loop h pid maxLength w1 0 [] [] [Attach pid]")
       (auto simp: GadgetsFromProcess_def)
  from regions_loop_trace [OF body] obtain res w2 mid where
    r: "r = (res, w2, [Attach pid] @ mid)" and mid: "list_all is_region_call mid" by blast
  obtain detachErr w3 where d: "PtraceDetach h w2 pid = (detachErr, w3)"
    by (cases "PtraceDetach h w2 pid")
  from other attach returns body r d have
    "result = res" "w' = w3"
    "trace = Attach pid # mid @ Detach pid #
             (case detachErr of
                None \<Rightarrow> []
              | Some e \<Rightarrow>
                  [LogError None
                     ''Unable to deteach Ropoly's PTrace from pid %d. This can lead to resource leaks. Beware.''
                     [pid]])"
    by (simp_all add: GadgetsFromProcess_def)
  with body r mid d show ?thesis by simp
qed

text \<open>The hard-error return of the copy, in a foreign process: the detach follows.\<close>

theorem detach_on_every_return_witness:
  "\<exists>w2 mid.
     regions_loop (fixture_host True) 200 2 () 0 [] [] [Attach 200] =
       Some (Returns ([], Some (Wrapf (External ''EIO'')
                      ''Error when attempting to access the memory contents for Pid %d.'' [200]),
                    [External ''maps line skipped'']), w2, Attach 200 # mid) \<and>
     list_all is_region_call mid"
proof -
  have other: "200 \<noteq> Getpid (fixture_host True)" by (simp add: fixture_host_def)
  have attach: "PtraceAttach (fixture_host True) () 200 = (None, ())"
    by (simp add: fixture_host_def)
  have returns: "GadgetsFromProcess (fixture_host True) () 200 2 =
     Some (Returns ([], Some (Wrapf (External ''EIO'')
                      ''Error when attempting to access the memory contents for Pid %d.'' [200]),
                    [External ''maps line skipped'']),
           (), [Attach 200, NextRegion 200 0, Copy 200 0x1000 16, Detach 200,
                LogError None
                  ''Unable to deteach Ropoly's PTrace from pid %d. This can lead to resource leaks. Beware.''
                  [200]])"
    using fixture_eio_run [of 200 "[]" "[]" "[Attach 200]"]
    by (simp add: GadgetsFromProcess_def) (simp add: fixture_host_def)
  from detach_on_every_return [OF other attach returns] show ?thesis by blast
qed

text \<open>
  Claim C10. Let the binary open without error and yield the sections \<open>secs\<close>, each
  reported as existing with a nil error, before a last call of \<^verbatim>\<open>nextSectionData\<close>. If
  that call reports that no section exists, then whatever error comes with it is
  discarded: \<^verbatim>\<open>DisassembleFile\<close> returns the instructions and the soft errors of all
  sections of \<open>secs\<close>, in order, with a nil hard error (nil instructions and nil soft
  errors when it is the very first call). If that call reports a section together with
  an error, the error is returned as hard error with nil instructions. Either way the
  binary is closed. An error of \<^verbatim>\<open>openBinary\<close> is returned as hard error.
\<close>

theorem DisassembleFile_discards_final_error:
  "(openBinary api path = (b0, Some e) \<longrightarrow>
      DisassembleFile api path start end_addr = Some (([], Some e, []), None)) \<and>
   (openBinary api path = (b0, None) \<longrightarrow>
    sections_then api b0 secs (sectionExists, addr, progData, err) b \<longrightarrow>
    (sectionExists \<longrightarrow> err \<noteq> None) \<longrightarrow>
      DisassembleFile api path start end_addr =
        Some ((if sectionExists then ([], err, [])
               else (concat (map (\<lambda>(a, d). fst (Disasm api d a start end_addr)) secs),
                     None,
                     concat (map (\<lambda>(a, d). snd (Disasm api d a start end_addr)) secs))),
              Some (closeBinary api b)))"
proof (intro conjI impI)
  assume "openBinary api path = (b0, Some e)"
  then show "DisassembleFile api path start end_addr = Some (([], Some e, []), None)"
    by (simp add: DisassembleFile_def)
next
  assume opened: "openBinary api path = (b0, None)"
    and secs: "sections_then api b0 secs (sectionExists, addr, progData, err) b"
    and final: "sectionExists \<longrightarrow> err \<noteq> None"
  obtain current b1 where nx: "nextSectionData api b0 = (current, b1)"
    by (cases "nextSectionData api b0")
  from sections_run [OF secs final, of start end_addr "[]" "[]"] nx
  have "DisassembleFile_loop api start end_addr current b1 [] [] =
         Some ((if sectionExists then ([], err, [])
                else (concat (map (\<lambda>(a, d). fst (Disasm api d a start end_addr)) secs),
                      None,
                      concat (map (\<lambda>(a, d). snd (Disasm api d a start end_addr)) secs))),
               b)" by simp
  with opened nx show "DisassembleFile api path start end_addr =
        Some ((if sectionExists then ([], err, [])
               else (concat (map (\<lambda>(a, d). fst (Disasm api d a start end_addr)) secs),
                     None,
                     concat (map (\<lambda>(a, d). snd (Disasm api d a start end_addr)) secs))),
              Some (closeBinary api b))"
    by (simp add: DisassembleFile_def)
qed

text \<open>
  The fixture binary: one section, then no section and an error. The section's
  instruction is returned with a nil hard error.
\<close>

theorem DisassembleFile_discards_final_error_witness:
  "nextSectionData fixture_binary 1 =
     ((False, 0, [], Some (External ''section header unreadable'')), 2) \<and>
   DisassembleFile fixture_binary ''/bin/true'' 0 0x7fffffffffffffff =
     Some (([''RET''], None, []), Some 2)"
proof -
  have opened: "openBinary fixture_binary ''/bin/true'' = (0, None)"
    by (simp add: fixture_binary_def)
  have secs: "sections_then fixture_binary 0 [(0x400000, [0xC3])]
                (False, 0, [], Some (External ''section header unreadable'')) 2"
    by (simp add: fixture_binary_def)
  from DisassembleFile_discards_final_error
         [where api = fixture_binary and path = "''/bin/true''" and ?b0.0 = 0
            and secs = "[(0x400000, [0xC3])]" and sectionExists = False and addr = 0
            and progData = "[]" and err = "Some (External ''section header unreadable'')"
            and b = 2 and start = 0 and end_addr = "0x7fffffffffffffff"]
       opened secs
  show ?thesis by (simp add: fixture_binary_def)
qed

end
